theory Spec2Isabelle
  imports Complex_Main "HOL-Library.Product_Lexorder"
begin

section \<open>Neighborhood insights (api/insights.py): data model\<close>

text \<open>
  The module answers one request: it geocodes an address, asks the places provider for
  eight amenity categories around the coordinates, ranks and truncates the results and
  assembles a report. The provider (the \<^verbatim>\<open>googlemaps\<close> client) is outside the module; it is
  a parameter of the model.

  Ratings and coordinates are Python floats that the module only copies and compares; they
  are modelled as rationals (finite values, no NaN). Counts are Python integers.
\<close>

type_synonym exn = string

text \<open>
  A key of a provider payload (a Python dict decoded from JSON) is missing, present with the
  value \<^verbatim>\<open>null\<close>, or present with a value.
\<close>

datatype 'a field = Absent | Null | Val 'a

text \<open>\<^verbatim>\<open>d.get(k)\<close>: \<^verbatim>\<open>None\<close> when the key is missing or its value is \<^verbatim>\<open>null\<close>.\<close>

fun dict_get :: "'a field \<Rightarrow> 'a option" where
  "dict_get Absent = None"
| "dict_get Null = None"
| "dict_get (Val v) = Some v"

text \<open>\<^verbatim>\<open>d.get(k, default)\<close>: the default only when the key is missing.\<close>

fun dict_get_default :: "'a field \<Rightarrow> 'a \<Rightarrow> 'a option" where
  "dict_get_default Absent d = Some d"
| "dict_get_default Null d = None"
| "dict_get_default (Val v) d = Some v"

text \<open>\<^verbatim>\<open>k in d\<close>\<close>

fun has_key :: "'a field \<Rightarrow> bool" where
  "has_key Absent = False"
| "has_key Null = True"
| "has_key (Val v) = True"

text \<open>A place as the provider returns it.\<close>

record raw_place =
  raw_name :: "string field"
  raw_rating :: "rat field"
  raw_user_ratings_total :: "int field"
  raw_types :: "string list field"

text \<open>The dict built for each place by \<^verbatim>\<open>find_places_nearby\<close> (lines 259-264).\<close>

record place =
  name :: "string option"
  rating :: "rat option"
  user_ratings_total :: "int option"
  types :: "string list option"

text \<open>The dict returned by \<^verbatim>\<open>find_nearest_place\<close> (lines 285-288).\<close>

record nearest_place =
  nearest_name :: "string option"
  nearest_rating :: "rat option"

text \<open>A response of \<^verbatim>\<open>gmaps.places_nearby\<close> and the keyword arguments of a call to it.\<close>

record response =
  results :: "raw_place list field"
  next_page_token :: "string field"

record nearby_request =
  location :: "rat \<times> rat"
  radius :: "int option"
  place_type :: string
  page_token :: "string option"
  rank_by :: "string option"

text \<open>
  A hit of \<^verbatim>\<open>gmaps.geocode\<close>; \<open>None\<close> stands for a key that is missing on the path
  \<^verbatim>\<open>['geometry']['location']['lat' / 'lng']\<close> or \<^verbatim>\<open>['formatted_address']\<close>, on which the
  subscript raises \<^verbatim>\<open>KeyError\<close>.
\<close>

record geocode_hit =
  hit_location :: "(rat \<times> rat) option"
  hit_formatted_address :: "string option"

text \<open>
  Every call to the provider is recorded with its outcome (\<open>Inl\<close>: the call raised). The
  provider's answer may depend on everything that happened before, so the client is a
  function of the record of earlier calls and of the arguments.
\<close>

datatype event =
  GeocodeCall string string "exn + geocode_hit list"
| NearbyCall nearby_request "exn + response"

record gmaps_client =
  geocode :: "event list \<Rightarrow> string \<Rightarrow> string \<Rightarrow> exn + geocode_hit list"
  places_nearby :: "event list \<Rightarrow> nearby_request \<Rightarrow> exn + response"

record geo =
  lat :: rat
  lng :: rat
  formatted_address :: string
  geo_source :: string

section \<open>The operations\<close>

subsection \<open>geocode_address (lines 207-227)\<close>

definition geocode_address ::
  "string \<Rightarrow> gmaps_client \<Rightarrow> string \<Rightarrow> event list \<Rightarrow> geo option \<times> event list" where
  "geocode_address address gmaps region w =
     (let out = geocode gmaps w address region;
          w' = w @ [GeocodeCall address region out]
      in case out of
           Inl e \<Rightarrow> (None, w')
         | Inr geocode_result \<Rightarrow>
             (case geocode_result of
                [] \<Rightarrow> (None, w')
              | hit # _ \<Rightarrow>
                  (case hit_location hit of
                     None \<Rightarrow> (None, w')
                   | Some (la, lo) \<Rightarrow>
                       (case hit_formatted_address hit of
                          None \<Rightarrow> (None, w')
                        | Some fa \<Rightarrow>
                            (Some \<lparr>lat = la, lng = lo, formatted_address = fa,
                                   geo_source = ''google''\<rparr>, w')))))"

subsection \<open>find_places_nearby (lines 230-269)\<close>

definition call_places_nearby ::
  "gmaps_client \<Rightarrow> nearby_request \<Rightarrow> event list \<Rightarrow> (exn + response) \<times> event list" where
  "call_places_nearby gmaps req w =
     (places_nearby gmaps w req, w @ [NearbyCall req (places_nearby gmaps w req)])"

text \<open>
  \<^verbatim>\<open>all_places.extend(response.get("results", []))\<close>: a \<^verbatim>\<open>null\<close> value is not iterable and
  raises \<^verbatim>\<open>TypeError\<close>.
\<close>

definition extend_results :: "raw_place list \<Rightarrow> response \<Rightarrow> exn + raw_place list" where
  "extend_results all_places response =
     (case dict_get_default (results response) [] of
        None \<Rightarrow> Inl ''TypeError''
      | Some rs \<Rightarrow> Inr (all_places @ rs))"

text \<open>
  The \<^verbatim>\<open>while\<close> loop of lines 246-255. \<^verbatim>\<open>time.sleep(2)\<close> only passes time and is not
  part of the state. The loop ends because \<open>pages\<close> grows towards \<open>max_pages\<close>.
\<close>

function paginate ::
  "gmaps_client \<Rightarrow> nearby_request \<Rightarrow> int \<Rightarrow> response \<Rightarrow> raw_place list \<Rightarrow> int \<Rightarrow> event list
     \<Rightarrow> (exn + raw_place list) \<times> event list" where
  "paginate gmaps req max_pages response all_places pages w =
     (if has_key (next_page_token response) \<and> pages < max_pages then
        (case call_places_nearby gmaps
                (req\<lparr>page_token := dict_get (next_page_token response)\<rparr>) w of
           (Inl e, w') \<Rightarrow> (Inl e, w')
         | (Inr response', w') \<Rightarrow>
             (case extend_results all_places response' of
                Inl e \<Rightarrow> (Inl e, w')
              | Inr all_places' \<Rightarrow>
                  paginate gmaps req max_pages response' all_places' (pages + 1) w'))
      else (Inr all_places, w))"
  by pat_completeness auto
termination
  by (relation "measure (\<lambda>(gmaps, req, max_pages, response, all_places, pages, w).
                  nat (max_pages - pages))") auto

declare paginate.simps [simp del]

definition normalize :: "raw_place \<Rightarrow> place" where
  "normalize p =
     \<lparr>name = dict_get (raw_name p),
      rating = dict_get (raw_rating p),
      user_ratings_total = dict_get (raw_user_ratings_total p),
      types = dict_get_default (raw_types p) []\<rparr>"

definition find_places_nearby ::
  "rat \<Rightarrow> rat \<Rightarrow> string \<Rightarrow> gmaps_client \<Rightarrow> int \<Rightarrow> int \<Rightarrow> event list
     \<Rightarrow> place list \<times> event list" where
  "find_places_nearby latitude longitude ptype gmaps rad max_pages w =
     (let req = \<lparr>location = (latitude, longitude), radius = Some rad, place_type = ptype,
                 page_token = None, rank_by = None\<rparr>
      in case call_places_nearby gmaps req w of
           (Inl e, w1) \<Rightarrow> ([], w1)
         | (Inr response, w1) \<Rightarrow>
             (case extend_results [] response of
                Inl e \<Rightarrow> ([], w1)
              | Inr all_places \<Rightarrow>
                  (case paginate gmaps req max_pages response all_places 1 w1 of
                     (Inl e, w2) \<Rightarrow> ([], w2)
                   | (Inr all_places', w2) \<Rightarrow> (map normalize all_places', w2))))"

subsection \<open>find_nearest_place (lines 272-293)\<close>

definition find_nearest_place ::
  "rat \<Rightarrow> rat \<Rightarrow> string \<Rightarrow> gmaps_client \<Rightarrow> event list \<Rightarrow> nearest_place option \<times> event list" where
  "find_nearest_place latitude longitude ptype gmaps w =
     (case call_places_nearby gmaps
             \<lparr>location = (latitude, longitude), radius = None, place_type = ptype,
              page_token = None, rank_by = Some ''distance''\<rparr> w of
        (Inl e, w1) \<Rightarrow> (None, w1)
      | (Inr response, w1) \<Rightarrow>
          (case dict_get (results response) of
             None \<Rightarrow> (None, w1)
           | Some [] \<Rightarrow> (None, w1)
           | Some (nearest # _) \<Rightarrow>
               (Some \<lparr>nearest_name = dict_get (raw_name nearest),
                      nearest_rating = dict_get (raw_rating nearest)\<rparr>, w1)))"

subsection \<open>safe_sort_key (lines 296-299) and the ranking\<close>

definition safe_sort_key :: "place \<Rightarrow> rat \<times> int" where
  "safe_sort_key x =
     (let rating = (if rating x \<noteq> None then the (rating x) else 0);
          count = (if user_ratings_total x \<noteq> None then the (user_ratings_total x) else 0)
      in (rating, count))"

text \<open>
  \<^verbatim>\<open>sorted(xs, key=k, reverse=True)\<close>: Python reverses the list, sorts it with its stable
  ascending sort and reverses the result. Tuples are compared lexicographically, which is
  the order of pairs here.
\<close>

definition sorted_reverse :: "('a \<Rightarrow> 'k::linorder) \<Rightarrow> 'a list \<Rightarrow> 'a list" where
  "sorted_reverse k xs = rev (sort_key k (rev xs))"


subsection \<open>get_neighborhood_insights (lines 89-204)\<close>

text \<open>The sections of the report. The JSON key \<^verbatim>\<open>top\<close> is the field \<open>top_places\<close>.\<close>

record category_section =
  count :: nat
  top_places :: "place list"

record hospitals_section = category_section +
  nearest :: "string option"

text \<open>The subway section has the keys \<^verbatim>\<open>count\<close>, \<^verbatim>\<open>nearest\<close> and \<^verbatim>\<open>alternatives\<close>.\<close>

record subway_section =
  subway_count :: nat
  subway_nearest :: "string option"
  alternatives :: "place list"

record social_life_sections =
  cafes :: category_section
  shopping_malls :: category_section
  parks :: category_section
  gyms :: category_section

record family_life_sections =
  schools :: category_section
  hospitals :: hospitals_section
  pharmacies :: category_section

record transport_sections =
  subway :: subway_section

record highlights_dict =
  cafes_top :: "string option list"
  schools_top :: "string option list"
  malls_top :: "string option list"
  nearest_hospital :: "string option"
  nearest_subway :: "string option"

record summary_dict =
  headline :: string
  highlights :: highlights_dict

record insights =
  query :: string
  address :: string
  coordinates :: "rat \<times> rat"
  source :: string
  social_life :: social_life_sections
  family_life :: family_life_sections
  transport :: transport_sections
  summary :: summary_dict

text \<open>
  The returned dict: \<open>Failed error query\<close> is \<^verbatim>\<open>{"ok": False, "error": ..., "query": ...}\<close>,
  \<open>Insights\<close> is the report with \<^verbatim>\<open>"ok": True\<close>; \<open>report\<close> reads it.
\<close>

datatype result = Failed string string | Insights (report: insights)

fun ok :: "result \<Rightarrow> bool" where
  "ok (Failed error q) = False"
| "ok (Insights r) = True"

text \<open>\<^verbatim>\<open>default_cfg\<close> (lines 102-114).\<close>

definition radii :: "(string \<times> int) list" where
  "radii =
     [(''cafe'', 1000), (''school'', 8000), (''hospital'', 5000), (''pharmacy'', 2000),
      (''park'', 1500), (''gym'', 2000), (''shopping_mall'', 5000), (''subway_station'', 2000)]"

definition top_n :: nat where
  "top_n = 5"

text \<open>\<^verbatim>\<open>radii[k]\<close>, used with the eight keys of the table only.\<close>

definition radii_at :: "string \<Rightarrow> int" where
  "radii_at k = the (map_of radii k)"

text \<open>\<^verbatim>\<open>summarize_list\<close> (lines 187-188); every element is a dict with the key \<^verbatim>\<open>name\<close>.\<close>

definition summarize_list :: "place list \<Rightarrow> nat \<Rightarrow> string option list" where
  "summarize_list lst t = map name (take t lst)"

text \<open>The decimal numeral that an f-string prints for a length.\<close>

fun str :: "nat \<Rightarrow> string" where
  "str n =
     (if n < 10 then [''0123456789'' ! n]
      else str (n div 10) @ [''0123456789'' ! (n mod 10)])"

declare str.simps [simp del]

text \<open>\<^verbatim>\<open>"shopping_mall" in (m.get("types") or [])\<close>\<close>

definition has_mall_tag :: "place \<Rightarrow> bool" where
  "has_mall_tag m =
     (''shopping_mall'' \<in> set (case types m of None \<Rightarrow> [] | Some [] \<Rightarrow> [] | Some ts \<Rightarrow> ts))"

text \<open>
  \<open>Client\<close> stands for \<^verbatim>\<open>googlemaps.Client(key=api_key)\<close>, which returns the client or raises
  (\<open>Inl\<close> carries \<^verbatim>\<open>str(e)\<close>). The function returns the dict and the record of provider calls.
  \<^verbatim>\<open>print\<close> is not modelled.
\<close>

definition get_neighborhood_insights ::
  "string \<Rightarrow> string \<Rightarrow> (string \<Rightarrow> exn + gmaps_client) \<Rightarrow> event list \<Rightarrow> result \<times> event list" where
  "get_neighborhood_insights addr api_key Client w0 =
     (case Client api_key of
        Inl e \<Rightarrow> (Failed (''Failed to initialize Google Maps client: '' @ e) addr, w0)
      | Inr gmaps \<Rightarrow>
          (case geocode_address addr gmaps ''tr'' w0 of
             (None, w1) \<Rightarrow> (Failed (''Could not geocode the address: '' @ addr) addr, w1)
           | (Some g, w1) \<Rightarrow>
               (let formatted = formatted_address g;
                    (cafes_l, w2) =
                      find_places_nearby (lat g) (lng g) ''cafe'' gmaps (radii_at ''cafe'') 2 w1;
                    cafes_sorted = sorted_reverse safe_sort_key cafes_l;
                    cafes_sec = \<lparr>count = length cafes_l, top_places = take top_n cafes_sorted\<rparr>;
                    (malls, w3) =
                      find_places_nearby (lat g) (lng g) ''shopping_mall'' gmaps
                        (radii_at ''shopping_mall'') 2 w2;
                    malls_filtered = filter has_mall_tag malls;
                    malls_sorted = sorted_reverse safe_sort_key malls_filtered;
                    malls_sec = \<lparr>count = length malls_filtered,
                                 top_places = take top_n malls_sorted\<rparr>;
                    (parks_l, w4) =
                      find_places_nearby (lat g) (lng g) ''park'' gmaps (radii_at ''park'') 2 w3;
                    parks_sorted = sorted_reverse safe_sort_key parks_l;
                    parks_sec = \<lparr>count = length parks_l, top_places = take top_n parks_sorted\<rparr>;
                    (gyms_l, w5) =
                      find_places_nearby (lat g) (lng g) ''gym'' gmaps (radii_at ''gym'') 2 w4;
                    gyms_sorted = sorted_reverse safe_sort_key gyms_l;
                    gyms_sec = \<lparr>count = length gyms_l, top_places = take top_n gyms_sorted\<rparr>;
                    (schools_l, w6) =
                      find_places_nearby (lat g) (lng g) ''school'' gmaps (radii_at ''school'') 2 w5;
                    schools_sorted = sorted_reverse safe_sort_key schools_l;
                    schools_sec = \<lparr>count = length schools_l,
                                   top_places = take top_n schools_sorted\<rparr>;
                    (hospitals_l, w7) =
                      find_places_nearby (lat g) (lng g) ''hospital'' gmaps
                        (radii_at ''hospital'') 2 w6;
                    (hospital_nearest, w8) =
                      find_nearest_place (lat g) (lng g) ''hospital'' gmaps w7;
                    hospitals_sorted = sorted_reverse safe_sort_key hospitals_l;
                    hospitals_sec =
                      \<lparr>count = length hospitals_l,
                       top_places = take top_n hospitals_sorted,
                       nearest = (case hospital_nearest of None \<Rightarrow> None
                                  | Some h \<Rightarrow> nearest_name h)\<rparr>;
                    (pharmacies_l, w9) =
                      find_places_nearby (lat g) (lng g) ''pharmacy'' gmaps
                        (radii_at ''pharmacy'') 2 w8;
                    pharmacies_sec = \<lparr>count = length pharmacies_l,
                                      top_places = take top_n pharmacies_l\<rparr>;
                    (metros, w10) =
                      find_places_nearby (lat g) (lng g) ''subway_station'' gmaps
                        (radii_at ''subway_station'') 2 w9;
                    (metro_nearest, w11) =
                      find_nearest_place (lat g) (lng g) ''subway_station'' gmaps w10;
                    subway_sec =
                      \<lparr>subway_count = length metros,
                       subway_nearest = (case metro_nearest of None \<Rightarrow> None
                                         | Some m \<Rightarrow> nearest_name m),
                       alternatives = take top_n metros\<rparr>;
                    summary_v =
                      \<lparr>headline =
                         formatted @ '': '' @ str (length cafes_l) @ '' cafes, ''
                         @ str (length parks_l) @ '' parks, '' @ str (length gyms_l) @ '' gyms, ''
                         @ str (length schools_l) @ '' schools, ''
                         @ str (length hospitals_l) @ '' hospitals, ''
                         @ str (length malls_filtered) @ '' malls nearby.'',
                       highlights =
                         \<lparr>cafes_top = summarize_list cafes_sorted 3,
                          schools_top = summarize_list schools_sorted 3,
                          malls_top = summarize_list malls_sorted 3,
                          nearest_hospital = (case hospital_nearest of None \<Rightarrow> None
                                              | Some h \<Rightarrow> nearest_name h),
                          nearest_subway = (case metro_nearest of None \<Rightarrow> None
                                            | Some m \<Rightarrow> nearest_name m)\<rparr>\<rparr>
                in (Insights
                      \<lparr>query = addr, address = formatted, coordinates = (lat g, lng g),
                       source = geo_source g,
                       social_life = \<lparr>cafes = cafes_sec, shopping_malls = malls_sec,
                                      parks = parks_sec, gyms = gyms_sec\<rparr>,
                       family_life = \<lparr>schools = schools_sec, hospitals = hospitals_sec,
                                      pharmacies = pharmacies_sec\<rparr>,
                       transport = \<lparr>subway = subway_sec\<rparr>,
                       summary = summary_v\<rparr>, w11))))"

text \<open>
  The provider calls of the body (lines 143, 147, 152, 156, 161, 165, 166, 174, 178 and
  179), in source order, each on the record of calls left by the one before; the result
  holds the local variables they bind. The sections are computed from these variables.
\<close>

record locals =
  var_cafes :: "place list"
  var_malls :: "place list"
  var_parks :: "place list"
  var_gyms :: "place list"
  var_schools :: "place list"
  var_hospitals :: "place list"
  var_hospital_nearest :: "nearest_place option"
  var_pharmacies :: "place list"
  var_metros :: "place list"
  var_metro_nearest :: "nearest_place option"

definition category_queries :: "gmaps_client \<Rightarrow> geo \<Rightarrow> event list \<Rightarrow> locals \<times> event list" where
  "category_queries gmaps g w1 =
     (let (cafes_l, w2) =
            find_places_nearby (lat g) (lng g) ''cafe'' gmaps (radii_at ''cafe'') 2 w1;
          (malls, w3) =
            find_places_nearby (lat g) (lng g) ''shopping_mall'' gmaps
              (radii_at ''shopping_mall'') 2 w2;
          (parks_l, w4) =
            find_places_nearby (lat g) (lng g) ''park'' gmaps (radii_at ''park'') 2 w3;
          (gyms_l, w5) =
            find_places_nearby (lat g) (lng g) ''gym'' gmaps (radii_at ''gym'') 2 w4;
          (schools_l, w6) =
            find_places_nearby (lat g) (lng g) ''school'' gmaps (radii_at ''school'') 2 w5;
          (hospitals_l, w7) =
            find_places_nearby (lat g) (lng g) ''hospital'' gmaps (radii_at ''hospital'') 2 w6;
          (hospital_nearest, w8) =
            find_nearest_place (lat g) (lng g) ''hospital'' gmaps w7;
          (pharmacies_l, w9) =
            find_places_nearby (lat g) (lng g) ''pharmacy'' gmaps (radii_at ''pharmacy'') 2 w8;
          (metros, w10) =
            find_places_nearby (lat g) (lng g) ''subway_station'' gmaps
              (radii_at ''subway_station'') 2 w9;
          (metro_nearest, w11) =
            find_nearest_place (lat g) (lng g) ''subway_station'' gmaps w10
      in (\<lparr>var_cafes = cafes_l, var_malls = malls, var_parks = parks_l, var_gyms = gyms_l,
           var_schools = schools_l, var_hospitals = hospitals_l,
           var_hospital_nearest = hospital_nearest, var_pharmacies = pharmacies_l,
           var_metros = metros, var_metro_nearest = metro_nearest\<rparr>, w11))"

subsection \<open>handler (lines 8-86)\<close>

text \<open>
  The request: its method and what \<^verbatim>\<open>request.get_json()\<close> gives, an exception or the body,
  a dict whose key \<^verbatim>\<open>address\<close> is missing, \<^verbatim>\<open>null\<close> or a string.
\<close>

record request_data =
  data_address :: "string field"

record request =
  http_method :: string
  get_json :: "exn + request_data"

text \<open>The argument of \<^verbatim>\<open>json.dumps\<close> in the response body.\<close>

datatype payload =
  Ok_True
| Error_body string
| Result_body result

record http_response =
  statusCode :: nat
  headers :: "(string \<times> string) list"
  body :: payload

definition json_headers :: "(string \<times> string) list" where
  "json_headers =
     [(''Access-Control-Allow-Origin'', ''*''), (''Content-Type'', ''application/json'')]"

text \<open>
  \<open>env_key\<close> is \<^verbatim>\<open>os.environ.get("GOOGLE_MAPS_API_KEY")\<close>. With a body of the type above no
  statement of the outer \<^verbatim>\<open>try\<close> raises, so the handler of lines 78-86 has no branch.
\<close>

definition handler ::
  "request \<Rightarrow> string option \<Rightarrow> (string \<Rightarrow> exn + gmaps_client) \<Rightarrow> event list
     \<Rightarrow> http_response \<times> event list" where
  "handler request env_key Client w =
     (if http_method request = ''OPTIONS'' then
        (\<lparr>statusCode = 200,
          headers = [(''Access-Control-Allow-Origin'', ''*''),
                     (''Access-Control-Allow-Methods'', ''POST, OPTIONS''),
                     (''Access-Control-Allow-Headers'', ''Content-Type''),
                     (''Content-Type'', ''application/json'')],
          body = Ok_True\<rparr>, w)
      else if http_method request \<noteq> ''POST'' then
        (\<lparr>statusCode = 405, headers = json_headers,
          body = Error_body ''Method not allowed. Use POST.''\<rparr>, w)
      else
        (case env_key of
           None \<Rightarrow>
             (\<lparr>statusCode = 500, headers = json_headers,
               body = Error_body ''GOOGLE_MAPS_API_KEY not set''\<rparr>, w)
         | Some api_key \<Rightarrow>
             if api_key = [] then
               (\<lparr>statusCode = 500, headers = json_headers,
                 body = Error_body ''GOOGLE_MAPS_API_KEY not set''\<rparr>, w)
             else
               (case get_json request of
                  Inl e \<Rightarrow>
                    (\<lparr>statusCode = 400, headers = json_headers,
                      body = Error_body ''Invalid JSON''\<rparr>, w)
                | Inr data \<Rightarrow>
                    (case dict_get (data_address data) of
                       None \<Rightarrow>
                         (\<lparr>statusCode = 400, headers = json_headers,
                           body = Error_body ''Address is required''\<rparr>, w)
                     | Some addr \<Rightarrow>
                         if addr = [] then
                           (\<lparr>statusCode = 400, headers = json_headers,
                             body = Error_body ''Address is required''\<rparr>, w)
                         else
                           (case get_neighborhood_insights addr api_key Client w of
                              (res, w') \<Rightarrow>
                                (\<lparr>statusCode = 200, headers = json_headers,
                                  body = Result_body res\<rparr>, w'))))))"

section \<open>Traces of provider calls\<close>

text \<open>
  The predicates below describe the calls that a search appends to the record. A call has
  failed when the provider raised or when the response carries \<^verbatim>\<open>"results": null\<close>;
  \<open>page_results\<close> are the places of one page.
\<close>

fun is_nearby_call :: "event \<Rightarrow> bool" where
  "is_nearby_call (NearbyCall r out) = True"
| "is_nearby_call (GeocodeCall a rg out) = False"

fun failed_call :: "event \<Rightarrow> bool" where
  "failed_call (NearbyCall r (Inl e)) = True"
| "failed_call (NearbyCall r (Inr resp)) = (results resp = Null)"
| "failed_call (GeocodeCall a rg out) = False"

fun page_results :: "event \<Rightarrow> raw_place list" where
  "page_results (NearbyCall r (Inr resp)) = (case results resp of Val rs \<Rightarrow> rs | _ \<Rightarrow> [])"
| "page_results (NearbyCall r (Inl e)) = []"
| "page_results (GeocodeCall a rg out) = []"

text \<open>
  \<open>follow_ups req max_pages pages prev evs\<close>: \<open>evs\<close> are exactly the follow-up calls of the
  loop after the response \<open>prev\<close>, with \<open>pages\<close> pages fetched so far. A call is there only
  if \<open>prev\<close> carries a token and \<open>pages < max_pages\<close>, it repeats the request with that
  token, and nothing follows a failed call.
\<close>

fun follow_ups :: "nearby_request \<Rightarrow> int \<Rightarrow> int \<Rightarrow> response \<Rightarrow> event list \<Rightarrow> bool" where
  "follow_ups req max_pages pages prev [] =
     (\<not> (has_key (next_page_token prev) \<and> pages < max_pages))"
| "follow_ups req max_pages pages prev (NearbyCall r out # evs) =
     (has_key (next_page_token prev) \<and> pages < max_pages
      \<and> r = req\<lparr>page_token := dict_get (next_page_token prev)\<rparr>
      \<and> (case out of
            Inl e \<Rightarrow> evs = []
          | Inr resp \<Rightarrow>
              if results resp = Null then evs = []
              else follow_ups req max_pages (pages + 1) resp evs))"
| "follow_ups req max_pages pages prev (GeocodeCall a rg out # evs) = False"

text \<open>
  A failed proximity call of category \<open>c\<close>: a failed call of \<^verbatim>\<open>find_places_nearby\<close> (no
  \<^verbatim>\<open>rank_by\<close>) for the place type \<open>c\<close>.
\<close>

fun proximity_failure :: "string \<Rightarrow> event \<Rightarrow> bool" where
  "proximity_failure c (NearbyCall r out) =
     (place_type r = c \<and> rank_by r = None \<and> failed_call (NearbyCall r out))"
| "proximity_failure c (GeocodeCall a rg out) = False"

text \<open>Every outcome in the record is the provider's answer to the call, given the record so far.\<close>

fun provider_answers :: "gmaps_client \<Rightarrow> event list \<Rightarrow> event list \<Rightarrow> bool" where
  "provider_answers gmaps w [] = True"
| "provider_answers gmaps w (NearbyCall r out # evs) =
     (out = places_nearby gmaps w r \<and> provider_answers gmaps (w @ [NearbyCall r out]) evs)"
| "provider_answers gmaps w (GeocodeCall a rg out # evs) =
     (out = geocode gmaps w a rg \<and> provider_answers gmaps (w @ [GeocodeCall a rg out]) evs)"

text \<open>The first request of a search and the trace of the whole search.\<close>

definition first_request :: "rat \<Rightarrow> rat \<Rightarrow> string \<Rightarrow> int \<Rightarrow> nearby_request" where
  "first_request la lo t rad =
     \<lparr>location = (la, lo), radius = Some rad, place_type = t, page_token = None,
      rank_by = None\<rparr>"

text \<open>The request of \<^verbatim>\<open>find_nearest_place\<close>.\<close>

definition distance_request :: "rat \<Rightarrow> rat \<Rightarrow> string \<Rightarrow> nearby_request" where
  "distance_request la lo t =
     \<lparr>location = (la, lo), radius = None, place_type = t, page_token = None,
      rank_by = Some ''distance''\<rparr>"

section \<open>Sample providers\<close>

text \<open>A provider that returns one place and a continuation token on every call.\<close>

definition sample_place :: "string \<Rightarrow> raw_place" where
  "sample_place n =
     \<lparr>raw_name = Val n, raw_rating = Val 4, raw_user_ratings_total = Val 10,
      raw_types = Val [''cafe'']\<rparr>"

definition endless_tokens :: gmaps_client where
  "endless_tokens =
     \<lparr>geocode = (\<lambda>w a rg. Inr []),
      places_nearby =
        (\<lambda>w req. Inr \<lparr>results = Val [sample_place ''Kahve''],
                        next_page_token = Val ''next''\<rparr>)\<rparr>"

text \<open>A provider whose geocoder raises, and a request whose address is the empty string.\<close>

definition failing_geocoder :: gmaps_client where
  "failing_geocoder =
     \<lparr>geocode = (\<lambda>w a rg. Inl ''timeout''),
      places_nearby = places_nearby endless_tokens\<rparr>"

definition empty_address_request :: request where
  "empty_address_request =
     \<lparr>http_method = ''POST'', get_json = Inr \<lparr>data_address = Val ''''\<rparr>\<rparr>"

text \<open>
  A provider with fixed answers per place type, on a single page: six cafes (one without
  rating and count, two with equal keys), four places for the mall query of which two carry
  the tag, two parks (one with a \<^verbatim>\<open>null\<close> rating, one without count and types), one
  hospital, two pharmacies and two subway stations in an order that is not the ranked one,
  nothing for the other types. \<open>cafe_outage\<close> is the same provider with every
  cafe request raising.
\<close>

definition sample_raw ::
  "string \<Rightarrow> rat field \<Rightarrow> int field \<Rightarrow> string list field \<Rightarrow> raw_place" where
  "sample_raw n r c ts =
     \<lparr>raw_name = Val n, raw_rating = r, raw_user_ratings_total = c, raw_types = ts\<rparr>"

definition sample_results :: "string \<Rightarrow> raw_place list field" where
  "sample_results t =
     (if t = ''cafe'' then
        Val [sample_raw ''Kahve'' (Val (9/2)) (Val 120) (Val [''cafe'']),
             sample_raw ''Cay'' Absent Absent (Val [''cafe'']),
             sample_raw ''Mola'' (Val (9/2)) (Val 300) (Val [''cafe'', ''bakery'']),
             sample_raw ''Simit'' (Val (39/10)) (Val 80) Absent,
             sample_raw ''Demlik'' (Val (24/5)) (Val 15) (Val [''cafe'']),
             sample_raw ''Fincan'' (Val (9/2)) (Val 120) (Val [''cafe''])]
      else if t = ''shopping_mall'' then
        Val [sample_raw ''Carsi'' (Val (41/10)) (Val 900) (Val [''shopping_mall'', ''store'']),
             sample_raw ''Otel'' (Val (49/10)) (Val 50) (Val [''lodging'']),
             sample_raw ''Pasaj'' (Val (22/5)) (Val 40) (Val [''shopping_mall'']),
             sample_raw ''Bufe'' (Val 5) (Val 7) Null]
      else if t = ''park'' then
        Val [sample_raw ''Yogurtcu Parki'' Null (Val 3) (Val [''park'']),
             sample_raw ''Moda Parki'' (Val (23/5)) Absent Absent]
      else if t = ''hospital'' then
        Val [sample_raw ''Devlet Hastanesi'' (Val (16/5)) (Val 410) (Val [''hospital''])]
      else if t = ''pharmacy'' then
        Val [sample_raw ''Eczane A'' (Val 3) (Val 12) (Val [''pharmacy'']),
             sample_raw ''Eczane B'' (Val (49/10)) (Val 31) (Val [''pharmacy''])]
      else if t = ''subway_station'' then
        Val [sample_raw ''Metro A'' (Val (7/2)) (Val 20) (Val [''subway_station'']),
             sample_raw ''Metro B'' (Val (47/10)) (Val 25) (Val [''subway_station''])]
      else Absent)"

definition sample_provider :: gmaps_client where
  "sample_provider =
     \<lparr>geocode =
        (\<lambda>w a rg. Inr [\<lparr>hit_location = Some (41, 29),
                          hit_formatted_address = Some ''Moda, Istanbul''\<rparr>]),
      places_nearby =
        (\<lambda>w req. Inr \<lparr>results = sample_results (place_type req),
                        next_page_token = Absent\<rparr>)\<rparr>"


definition sample_geo :: geo where
  "sample_geo =
     \<lparr>lat = 41, lng = 29, formatted_address = ''Moda, Istanbul'', geo_source = ''google''\<rparr>"


text \<open>The sample run: the record of calls after geocoding, the local variables, the result.\<close>

definition sample_log :: "event list" where
  "sample_log =
     [GeocodeCall ''Moda'' ''tr''
        (Inr [\<lparr>hit_location = Some (41, 29), hit_formatted_address = Some ''Moda, Istanbul''\<rparr>])]"

definition sample_locals :: locals where
  "sample_locals = fst (category_queries sample_provider sample_geo sample_log)"

definition sample_run :: "result \<times> event list" where
  "sample_run = get_neighborhood_insights ''Moda'' ''key'' (\<lambda>k. Inr sample_provider) []"

text \<open>
  The sample provider with another rating for the hospital of the distance-ranked query, and
  its run.
\<close>

definition rerated_provider :: gmaps_client where
  "rerated_provider =
     sample_provider
       \<lparr>places_nearby :=
          (\<lambda>w req. if place_type req = ''hospital'' \<and> rank_by req = Some ''distance''
                    then Inr \<lparr>results = Val [sample_raw ''Devlet Hastanesi'' (Val 1) (Val 410)
                                                (Val [''hospital''])],
                              next_page_token = Absent\<rparr>
                    else places_nearby sample_provider w req)\<rparr>"

definition rerated_locals :: locals where
  "rerated_locals = fst (category_queries rerated_provider sample_geo sample_log)"

definition rerated_run :: "result \<times> event list" where
  "rerated_run = get_neighborhood_insights ''Moda'' ''key'' (\<lambda>k. Inr rerated_provider) []"

section \<open>The Composite Ranker\<close>

text \<open>
  The order of keys is the lexicographic order of the pairs, written out: the rating
  decides, and the count decides between equal ratings.
\<close>

lemma key_order_iff:
  "(b :: rat \<times> int) \<le> a \<longleftrightarrow> fst b < fst a \<or> (fst a = fst b \<and> snd b \<le> snd a)"
  by (cases a; cases b) (auto simp: less_eq_prod_def)

lemma sorted_reverse_descending:
  "sorted_wrt (\<lambda>a b. k b \<le> k a) (sorted_reverse k xs)"
proof -
  have "sorted (map k (sort_key k (rev xs)))"
    by (rule sorted_sort_key)
  then have "sorted_wrt (\<lambda>a b. k a \<le> k b) (sort_key k (rev xs))"
    by (simp add: sorted_map)
  then have "sorted_wrt (\<lambda>b a. k a \<le> k b) (rev (sort_key k (rev xs)))"
    by (simp add: sorted_wrt_rev)
  then show ?thesis
    by (simp add: sorted_reverse_def)
qed

lemma sorted_reverse_stable:
  "filter (\<lambda>x. k x = c) (sorted_reverse k xs) = filter (\<lambda>x. k x = c) xs"
  by (simp add: sorted_reverse_def rev_filter [symmetric] sort_key_stable)

lemma set_sorted_reverse: "set (sorted_reverse k xs) = set xs"
  by (simp add: sorted_reverse_def)

lemma length_sorted_reverse: "length (sorted_reverse k xs) = length xs"
  by (simp add: sorted_reverse_def)

lemma safe_sort_key_eq:
  "safe_sort_key x =
     (case rating x of None \<Rightarrow> 0 | Some r \<Rightarrow> r,
      case user_ratings_total x of None \<Rightarrow> 0 | Some c \<Rightarrow> c)"
  by (simp add: safe_sort_key_def split: option.splits)

text \<open>
  C1. For every list of place records, the ranking \<^verbatim>\<open>sorted(records, key=safe_sort_key,
  reverse=True)\<close> returns the records in descending order of the key (rating, or 0 when
  absent; rating count, or 0 when absent): of two records, the one with the greater rating
  comes first, and of two with equal ratings the one with the greater count. Records with
  equal keys keep their original relative order: for every key, the records with that key
  appear in the output in the order they have in the input. The output holds the same
  records as the input.
\<close>

theorem composite_ranker_descending_stable:
  "sorted_wrt
     (\<lambda>a b. fst (safe_sort_key b) < fst (safe_sort_key a)
           \<or> (fst (safe_sort_key a) = fst (safe_sort_key b)
              \<and> snd (safe_sort_key b) \<le> snd (safe_sort_key a)))
     (sorted_reverse safe_sort_key records)
   \<and> (\<forall>key. filter (\<lambda>x. safe_sort_key x = key) (sorted_reverse safe_sort_key records)
            = filter (\<lambda>x. safe_sort_key x = key) records)
   \<and> set (sorted_reverse safe_sort_key records) = set records
   \<and> length (sorted_reverse safe_sort_key records) = length records
   \<and> (\<forall>x. safe_sort_key x =
          (case rating x of None \<Rightarrow> 0 | Some r \<Rightarrow> r,
           case user_ratings_total x of None \<Rightarrow> 0 | Some c \<Rightarrow> c))"
proof -
  have "sorted_wrt (\<lambda>a b. safe_sort_key b \<le> safe_sort_key a)
          (sorted_reverse safe_sort_key records)"
    by (rule sorted_reverse_descending)
  then have "sorted_wrt
     (\<lambda>a b. fst (safe_sort_key b) < fst (safe_sort_key a)
           \<or> (fst (safe_sort_key a) = fst (safe_sort_key b)
              \<and> snd (safe_sort_key b) \<le> snd (safe_sort_key a)))
     (sorted_reverse safe_sort_key records)"
    by (simp only: key_order_iff)
  then show ?thesis
    using sorted_reverse_stable [of safe_sort_key _ records]
    by (simp add: set_sorted_reverse length_sorted_reverse safe_sort_key_eq)
qed

section \<open>Proximity search: pagination\<close>

lemma paginate_trace:
  "paginate gmaps req max_pages response all_places pages w = (out, w') \<Longrightarrow>
   \<exists>evs. w' = w @ evs
     \<and> follow_ups req max_pages pages response evs
     \<and> (case out of
          Inl e \<Rightarrow> (\<exists>ev\<in>set evs. failed_call ev)
        | Inr xs \<Rightarrow> (\<forall>ev\<in>set evs. \<not> failed_call ev)
                   \<and> xs = all_places @ concat (map page_results evs))"
proof (induction gmaps req max_pages response all_places pages w arbitrary: out w'
       rule: paginate.induct)
  case (1 gmaps req max_pages response all_places pages w)
  note unfold = paginate.simps [of gmaps req max_pages response all_places pages w]
  show ?case
  proof (cases "has_key (next_page_token response) \<and> pages < max_pages")
    case False
    with "1.prems" show ?thesis
      by (auto simp: unfold)
  next
    case go: True
    let ?r = "req\<lparr>page_token := dict_get (next_page_token response)\<rparr>"
    show ?thesis
    proof (cases "places_nearby gmaps w ?r")
      case (Inl e)
      let ?ev = "NearbyCall ?r (Inl e)"
      from Inl go "1.prems" have "out = Inl e" "w' = w @ [?ev]"
        by (auto simp: unfold call_places_nearby_def)
      with go show ?thesis
        by (intro exI [of _ "[?ev]"]) auto
    next
      case (Inr resp)
      let ?ev = "NearbyCall ?r (Inr resp)"
      have call: "(Inr resp, w @ [?ev]) = call_places_nearby gmaps ?r w"
        by (simp add: call_places_nearby_def Inr)
      show ?thesis
      proof (cases "results resp = Null")
        case True
        with Inr go "1.prems" have "\<exists>e. out = Inl e" "w' = w @ [?ev]"
          by (auto simp: unfold call_places_nearby_def extend_results_def)
        with go True show ?thesis
          by (intro exI [of _ "[?ev]"]) auto
      next
        case False
        then obtain all' where ext: "extend_results all_places resp = Inr all'"
          and all': "all' = all_places @ page_results ?ev"
          by (cases "results resp") (auto simp: extend_results_def)
        from Inr go ext "1.prems"
        have rec: "paginate gmaps req max_pages resp all' (pages + 1) (w @ [?ev]) = (out, w')"
          by (simp add: unfold call_places_nearby_def)
        from "1.IH" [OF go call refl ext rec]
        obtain evs where evs: "w' = (w @ [?ev]) @ evs"
          "follow_ups req max_pages (pages + 1) resp evs"
          "case out of
             Inl e \<Rightarrow> (\<exists>ev\<in>set evs. failed_call ev)
           | Inr xs \<Rightarrow> (\<forall>ev\<in>set evs. \<not> failed_call ev)
                      \<and> xs = all' @ concat (map page_results evs)"
          by auto
        show ?thesis
          using evs go False all'
          by (intro exI [of _ "?ev # evs"]) (auto split: sum.splits)
      qed
    qed
  qed
qed


lemma follow_ups_length:
  "follow_ups req max_pages pages prev evs \<Longrightarrow> evs \<noteq> [] \<Longrightarrow>
   pages + int (length evs) \<le> max_pages"
proof (induction evs arbitrary: pages prev)
  case Nil
  then show ?case by simp
next
  case (Cons ev evs)
  then show ?case
  proof (cases ev)
    case (GeocodeCall a rg out)
    with Cons.prems show ?thesis by simp
  next
    case (NearbyCall r out)
    show ?thesis
    proof (cases evs)
      case Nil
      with Cons.prems NearbyCall show ?thesis by simp
    next
      case (Cons ev' evs')
      with Cons.prems NearbyCall obtain resp where
        "follow_ups req max_pages (pages + 1) resp evs"
        by (auto split: sum.splits if_splits)
      from Cons.IH [OF this] Cons show ?thesis by simp
    qed
  qed
qed

lemma follow_ups_requests:
  "follow_ups req max_pages pages prev evs \<Longrightarrow> ev \<in> set evs \<Longrightarrow>
   \<exists>tok out. ev = NearbyCall (req\<lparr>page_token := tok\<rparr>) out"
proof (induction evs arbitrary: pages prev)
  case Nil
  then show ?case by simp
next
  case (Cons e evs)
  show ?case
  proof (cases e)
    case (GeocodeCall a rg out)
    with Cons.prems show ?thesis by simp
  next
    case (NearbyCall r out)
    show ?thesis
    proof (cases "ev = e")
      case True
      with Cons.prems NearbyCall show ?thesis by auto
    next
      case False
      with Cons.prems have mem: "ev \<in> set evs" by simp
      then have "evs \<noteq> []" by auto
      with Cons.prems NearbyCall obtain resp where
        "follow_ups req max_pages (pages + 1) resp evs"
        by (auto split: sum.splits if_splits)
      from Cons.IH [OF this mem] show ?thesis .
    qed
  qed
qed

lemma follow_ups_first:
  "follow_ups req max_pages pages prev (ev # evs) \<Longrightarrow>
   has_key (next_page_token prev) \<and> pages < max_pages
   \<and> (\<exists>out. ev = NearbyCall (req\<lparr>page_token := dict_get (next_page_token prev)\<rparr>) out)"
  by (cases ev) auto

lemma follow_ups_next:
  "follow_ups req max_pages pages prev evs \<Longrightarrow> Suc i < length evs \<Longrightarrow>
   \<exists>r resp out'.
      evs ! i = NearbyCall r (Inr resp)
      \<and> has_key (next_page_token resp)
      \<and> pages + int (Suc i) < max_pages
      \<and> evs ! Suc i = NearbyCall (req\<lparr>page_token := dict_get (next_page_token resp)\<rparr>) out'"
proof (induction evs arbitrary: pages prev i)
  case Nil
  then show ?case by simp
next
  case (Cons e evs)
  from Cons.prems obtain e' evs' where evs: "evs = e' # evs'"
    by (cases evs) auto
  from Cons.prems obtain r out where e: "e = NearbyCall r out"
    by (cases e) auto
  from Cons.prems e evs obtain resp where out: "out = Inr resp"
    and rest: "follow_ups req max_pages (pages + 1) resp evs"
    by (auto split: sum.splits if_splits)
  show ?case
  proof (cases i)
    case 0
    from follow_ups_first [OF rest [unfolded evs]] e out evs 0 show ?thesis
      by auto
  next
    case (Suc j)
    with Cons.prems have "Suc j < length evs" by simp
    from Cons.IH [OF rest this] Suc show ?thesis
      by (auto simp: add.commute add.left_commute)
  qed
qed

lemma provider_answers_append:
  "provider_answers gmaps w (evs @ evs') \<longleftrightarrow>
     provider_answers gmaps w evs \<and> provider_answers gmaps (w @ evs) evs'"
proof (induction evs arbitrary: w)
  case Nil
  show ?case by simp
next
  case (Cons e evs)
  show ?case
    by (cases e) (simp_all add: Cons.IH)
qed

lemma paginate_answers:
  "paginate gmaps req max_pages response all_places pages w = (out, w') \<Longrightarrow>
   \<exists>evs. w' = w @ evs \<and> provider_answers gmaps w evs"
proof (induction gmaps req max_pages response all_places pages w arbitrary: out w'
       rule: paginate.induct)
  case (1 gmaps req max_pages response all_places pages w)
  note unfold = paginate.simps [of gmaps req max_pages response all_places pages w]
  show ?case
  proof (cases "has_key (next_page_token response) \<and> pages < max_pages")
    case False
    with "1.prems" show ?thesis
      by (auto simp: unfold)
  next
    case go: True
    let ?r = "req\<lparr>page_token := dict_get (next_page_token response)\<rparr>"
    let ?ev = "NearbyCall ?r (places_nearby gmaps w ?r)"
    show ?thesis
    proof (cases "places_nearby gmaps w ?r")
      case (Inl e)
      with go "1.prems" have "w' = w @ [?ev]"
        by (auto simp: unfold call_places_nearby_def)
      then show ?thesis
        by (intro exI [of _ "[?ev]"]) simp
    next
      case (Inr resp)
      have call: "(Inr resp, w @ [?ev]) = call_places_nearby gmaps ?r w"
        by (simp add: call_places_nearby_def Inr)
      show ?thesis
      proof (cases "extend_results all_places resp")
        case (Inl e)
        with Inr go "1.prems" have "w' = w @ [?ev]"
          by (auto simp: unfold call_places_nearby_def)
        then show ?thesis
          by (intro exI [of _ "[?ev]"]) simp
      next
        case ext: (Inr all')
        from Inr go ext "1.prems"
        have rec: "paginate gmaps req max_pages resp all' (pages + 1) (w @ [?ev]) = (out, w')"
          by (simp add: unfold call_places_nearby_def)
        from "1.IH" [OF go call refl ext rec]
        obtain evs where "w' = (w @ [?ev]) @ evs" "provider_answers gmaps (w @ [?ev]) evs"
          by auto
        then show ?thesis
          by (intro exI [of _ "?ev # evs"]) simp
      qed
    qed
  qed
qed

lemma find_places_nearby_trace:
  assumes "find_places_nearby la lo t gmaps rad max_pages w = (places, w')"
  shows "\<exists>out evs. w' = w @ NearbyCall (first_request la lo t rad) out # evs
     \<and> provider_answers gmaps w (NearbyCall (first_request la lo t rad) out # evs)
     \<and> (case out of
          Inl e \<Rightarrow> evs = []
        | Inr resp \<Rightarrow>
            if results resp = Null then evs = []
            else follow_ups (first_request la lo t rad) max_pages 1 resp evs)
     \<and> places =
         (if \<exists>ev\<in>set (NearbyCall (first_request la lo t rad) out # evs). failed_call ev
          then []
          else map normalize
                 (concat (map page_results (NearbyCall (first_request la lo t rad) out # evs))))"
proof -
  let ?req = "first_request la lo t rad"
  let ?ev = "NearbyCall ?req (places_nearby gmaps w ?req)"
  note fpn = assms [unfolded find_places_nearby_def Let_def, folded first_request_def]
  show ?thesis
  proof (cases "places_nearby gmaps w ?req")
    case (Inl e)
    with fpn have "places = []" "w' = w @ [?ev]"
      by (auto simp: call_places_nearby_def)
    with Inl show ?thesis
      by (intro exI [of _ "Inl e"] exI [of _ "[]"]) simp
  next
    case (Inr resp)
    show ?thesis
    proof (cases "results resp = Null")
      case True
      with Inr fpn have "places = []" "w' = w @ [?ev]"
        by (auto simp: call_places_nearby_def extend_results_def)
      with Inr True show ?thesis
        by (intro exI [of _ "Inr resp"] exI [of _ "[]"]) simp
    next
      case False
      then obtain all0 where ext: "extend_results [] resp = Inr all0"
        and all0: "all0 = page_results ?ev"
        using Inr by (cases "results resp") (auto simp: extend_results_def)
      obtain out2 w2 where pg: "paginate gmaps ?req max_pages resp all0 1 (w @ [?ev]) = (out2, w2)"
        by (cases "paginate gmaps ?req max_pages resp all0 1 (w @ [?ev])") auto
      from fpn Inr ext pg have res: "w' = w2"
        "places = (case out2 of Inl e \<Rightarrow> [] | Inr xs \<Rightarrow> map normalize xs)"
        by (auto simp: call_places_nearby_def split: sum.splits)
      from paginate_trace [OF pg] obtain evs where evs: "w2 = (w @ [?ev]) @ evs"
        "follow_ups ?req max_pages 1 resp evs"
        "case out2 of
           Inl e \<Rightarrow> (\<exists>ev\<in>set evs. failed_call ev)
         | Inr xs \<Rightarrow> (\<forall>ev\<in>set evs. \<not> failed_call ev)
                    \<and> xs = all0 @ concat (map page_results evs)"
        by auto
      from paginate_answers [OF pg] evs(1) have ans: "provider_answers gmaps (w @ [?ev]) evs"
        by auto
      show ?thesis
        using res evs ans Inr False all0
        by (intro exI [of _ "Inr resp"] exI [of _ evs]) (auto split: sum.splits)
    qed
  qed
qed


lemma length_concat_pages:
  "\<forall>ev\<in>set evs. length (page_results ev) \<le> k \<Longrightarrow>
   length (concat (map page_results evs)) \<le> k * length evs"
  by (induction evs) auto

lemma endless_run:
  "find_places_nearby 41 29 ''cafe'' endless_tokens 1000 2 [] =
     ([normalize (sample_place ''Kahve''), normalize (sample_place ''Kahve'')],
      [NearbyCall (first_request 41 29 ''cafe'' 1000)
         (Inr \<lparr>results = Val [sample_place ''Kahve''], next_page_token = Val ''next''\<rparr>),
       NearbyCall ((first_request 41 29 ''cafe'' 1000)\<lparr>page_token := Some ''next''\<rparr>)
         (Inr \<lparr>results = Val [sample_place ''Kahve''], next_page_token = Val ''next''\<rparr>)])"
  by (simp add: find_places_nearby_def call_places_nearby_def paginate.simps
      extend_results_def endless_tokens_def first_request_def)

text \<open>
  C3. For every provider and every \<open>max_pages \<ge> 1\<close> (the default is 2),
  \<^verbatim>\<open>find_places_nearby\<close> issues at least one and at most \<open>max_pages\<close> page requests,
  whatever tokens the provider supplies. All of them are the first request, up to the page
  token. A follow-up request (call \<open>i + 1\<close>) is issued only when the previous call returned
  a response with the key \<^verbatim>\<open>next_page_token\<close>, it carries that token, and the \<open>i + 1\<close> pages
  fetched so far are fewer than \<open>max_pages\<close>. The places returned are the normalised places
  of the pages fetched, in arrival order, or none; when every page holds at most \<open>k\<close> places,
  at most \<open>k * max_pages\<close> places are returned.
\<close>

theorem find_places_nearby_page_cap:
  assumes run: "find_places_nearby latitude longitude ptype gmaps rad max_pages w = (places, w')"
      and cap: "1 \<le> max_pages"
  shows "\<exists>evs. w' = w @ evs
     \<and> provider_answers gmaps w evs
     \<and> 1 \<le> length evs \<and> int (length evs) \<le> max_pages
     \<and> (\<forall>ev\<in>set evs. \<exists>tok out.
           ev = NearbyCall ((first_request latitude longitude ptype rad)\<lparr>page_token := tok\<rparr>) out)
     \<and> (\<exists>out. evs ! 0 = NearbyCall (first_request latitude longitude ptype rad) out)
     \<and> (\<forall>i. Suc i < length evs \<longrightarrow>
           (\<exists>r resp r' out'.
              evs ! i = NearbyCall r (Inr resp) \<and> evs ! Suc i = NearbyCall r' out'
              \<and> has_key (next_page_token resp)
              \<and> page_token r' = dict_get (next_page_token resp)
              \<and> int (Suc i) < max_pages))
     \<and> (places = [] \<or> places = map normalize (concat (map page_results evs)))
     \<and> (\<forall>k. (\<forall>ev\<in>set evs. length (page_results ev) \<le> k) \<longrightarrow>
              int (length places) \<le> int k * max_pages)"
proof -
  let ?req = "first_request latitude longitude ptype rad"
  from find_places_nearby_trace [OF run] obtain out evs where
    w': "w' = w @ NearbyCall ?req out # evs"
    and ans: "provider_answers gmaps w (NearbyCall ?req out # evs)"
    and rest: "case out of
                 Inl e \<Rightarrow> evs = []
               | Inr resp \<Rightarrow>
                   if results resp = Null then evs = []
                   else follow_ups ?req max_pages 1 resp evs"
    and places: "places =
         (if \<exists>ev\<in>set (NearbyCall ?req out # evs). failed_call ev then []
          else map normalize (concat (map page_results (NearbyCall ?req out # evs))))"
    by blast
  let ?evs = "NearbyCall ?req out # evs"
  have fu: "\<exists>resp. out = Inr resp \<and> follow_ups ?req max_pages 1 resp evs" if "evs \<noteq> []"
    using rest that by (auto split: sum.splits if_splits)
  have len: "int (length ?evs) \<le> max_pages"
  proof (cases "evs = []")
    case True
    with cap show ?thesis by simp
  next
    case False
    from fu [OF False] obtain resp where "follow_ups ?req max_pages 1 resp evs" by blast
    from follow_ups_length [OF this False] show ?thesis by simp
  qed
  have reqs: "\<forall>ev\<in>set ?evs. \<exists>tok out. ev = NearbyCall (?req\<lparr>page_token := tok\<rparr>) out"
  proof
    fix ev assume ev: "ev \<in> set ?evs"
    show "\<exists>tok out. ev = NearbyCall (?req\<lparr>page_token := tok\<rparr>) out"
    proof (cases "ev = NearbyCall ?req out")
      case True
      have "?req = ?req\<lparr>page_token := None\<rparr>"
        by (simp add: first_request_def)
      with True show ?thesis by metis
    next
      case False
      with ev have mem: "ev \<in> set evs" by simp
      then have "evs \<noteq> []" by auto
      from fu [OF this] obtain resp where "follow_ups ?req max_pages 1 resp evs" by blast
      from follow_ups_requests [OF this mem] show ?thesis .
    qed
  qed
  have steps: "\<exists>r resp r' out'.
              ?evs ! i = NearbyCall r (Inr resp) \<and> ?evs ! Suc i = NearbyCall r' out'
              \<and> has_key (next_page_token resp)
              \<and> page_token r' = dict_get (next_page_token resp)
              \<and> int (Suc i) < max_pages" if i: "Suc i < length ?evs" for i
  proof -
    from i have ne: "evs \<noteq> []" by auto
    from fu [OF ne] obtain resp where out: "out = Inr resp"
      and f: "follow_ups ?req max_pages 1 resp evs" by blast
    show ?thesis
    proof (cases i)
      case 0
      from ne obtain e es where evs: "evs = e # es" by (cases evs) auto
      from follow_ups_first [OF f [unfolded evs]] out evs 0 show ?thesis
        by auto
    next
      case (Suc j)
      with i have "Suc j < length evs" by simp
      from follow_ups_next [OF f this] Suc show ?thesis
        by auto
    qed
  qed
  have bound: "int (length places) \<le> int k * max_pages"
    if k: "\<forall>ev\<in>set ?evs. length (page_results ev) \<le> k" for k
  proof -
    have "length places \<le> length (concat (map page_results ?evs))"
      using places by (simp split: if_splits)
    also have "\<dots> \<le> k * length ?evs"
      by (rule length_concat_pages [OF k])
    finally have "int (length places) \<le> int k * int (length ?evs)"
      by (metis of_nat_le_iff of_nat_mult)
    also have "\<dots> \<le> int k * max_pages"
      using len by (simp add: mult_left_mono)
    finally show ?thesis .
  qed
  show ?thesis
    apply (rule exI [of _ ?evs])
    apply (intro conjI)
    subgoal using w' by simp
    subgoal using ans .
    subgoal by simp
    subgoal using len .
    subgoal using reqs .
    subgoal by simp
    subgoal using steps by blast
    subgoal using places by (simp split: if_splits)
    subgoal using bound by blast
    done
qed

theorem find_places_nearby_page_cap_witness:
  "length (snd (find_places_nearby 41 29 ''cafe'' endless_tokens 1000 2 [])) = 2
   \<and> length (fst (find_places_nearby 41 29 ''cafe'' endless_tokens 1000 2 [])) = 2
   \<and> (\<exists>evs. snd (find_places_nearby 41 29 ''cafe'' endless_tokens 1000 2 []) = [] @ evs
     \<and> provider_answers endless_tokens [] evs
     \<and> 1 \<le> length evs \<and> int (length evs) \<le> 2
     \<and> (\<forall>ev\<in>set evs. \<exists>tok out.
           ev = NearbyCall ((first_request 41 29 ''cafe'' 1000)\<lparr>page_token := tok\<rparr>) out)
     \<and> (\<exists>out. evs ! 0 = NearbyCall (first_request 41 29 ''cafe'' 1000) out)
     \<and> (\<forall>i. Suc i < length evs \<longrightarrow>
           (\<exists>r resp r' out'.
              evs ! i = NearbyCall r (Inr resp) \<and> evs ! Suc i = NearbyCall r' out'
              \<and> has_key (next_page_token resp)
              \<and> page_token r' = dict_get (next_page_token resp)
              \<and> int (Suc i) < 2))
     \<and> (fst (find_places_nearby 41 29 ''cafe'' endless_tokens 1000 2 []) = []
        \<or> fst (find_places_nearby 41 29 ''cafe'' endless_tokens 1000 2 [])
           = map normalize (concat (map page_results evs)))
     \<and> (\<forall>k. (\<forall>ev\<in>set evs. length (page_results ev) \<le> k) \<longrightarrow>
              int (length (fst (find_places_nearby 41 29 ''cafe'' endless_tokens 1000 2 [])))
                \<le> int k * 2))"
proof -
  have run: "find_places_nearby 41 29 ''cafe'' endless_tokens 1000 2 [] =
      (fst (find_places_nearby 41 29 ''cafe'' endless_tokens 1000 2 []),
       snd (find_places_nearby 41 29 ''cafe'' endless_tokens 1000 2 []))"
    by simp
  have cap: "(1::int) \<le> 2" by simp
  have a: "length (snd (find_places_nearby 41 29 ''cafe'' endless_tokens 1000 2 [])) = 2"
    by (simp add: endless_run)
  have b: "length (fst (find_places_nearby 41 29 ''cafe'' endless_tokens 1000 2 [])) = 2"
    by (simp add: endless_run)
  from a b find_places_nearby_page_cap [OF run cap] show ?thesis
    by (intro conjI)
qed

section \<open>Geocoding failure\<close>

lemma geocode_address_None_iff:
  "fst (geocode_address addr gmaps region w) = None \<longleftrightarrow>
     (\<exists>e. geocode gmaps w addr region = Inl e)
     \<or> geocode gmaps w addr region = Inr []
     \<or> (\<exists>hit hits. geocode gmaps w addr region = Inr (hit # hits)
          \<and> (hit_location hit = None \<or> hit_formatted_address hit = None))"
  by (auto simp: geocode_address_def Let_def split: sum.splits list.splits option.splits)

lemma geocode_address_log:
  "snd (geocode_address addr gmaps region w) =
     w @ [GeocodeCall addr region (geocode gmaps w addr region)]"
  by (auto simp: geocode_address_def Let_def split: sum.splits list.splits option.splits)

text \<open>
  C4. When geocoding fails, that is, the geocoder raises, returns no hit, or returns a first
  hit without coordinates or formatted address, \<^verbatim>\<open>get_neighborhood_insights\<close> returns
  \<^verbatim>\<open>{"ok": False, "error": "Could not geocode the address: " + address, "query": address}\<close>
  and the only provider call it makes is the geocoding call: no call to
  \<^verbatim>\<open>places_nearby\<close>, hence no category query.
\<close>

theorem geocoding_failure_no_queries:
  assumes client: "Client api_key = Inr gmaps"
      and failure: "(\<exists>e. geocode gmaps w0 addr ''tr'' = Inl e)
         \<or> geocode gmaps w0 addr ''tr'' = Inr []
         \<or> (\<exists>hit hits. geocode gmaps w0 addr ''tr'' = Inr (hit # hits)
              \<and> (hit_location hit = None \<or> hit_formatted_address hit = None))"
  shows "get_neighborhood_insights addr api_key Client w0 =
           (Failed (''Could not geocode the address: '' @ addr) addr,
            w0 @ [GeocodeCall addr ''tr'' (geocode gmaps w0 addr ''tr'')])
         \<and> \<not> ok (fst (get_neighborhood_insights addr api_key Client w0))
         \<and> filter is_nearby_call (snd (get_neighborhood_insights addr api_key Client w0))
             = filter is_nearby_call w0"
proof -
  from failure have none: "fst (geocode_address addr gmaps ''tr'' w0) = None"
    by (simp only: geocode_address_None_iff)
  have log: "snd (geocode_address addr gmaps ''tr'' w0) =
      w0 @ [GeocodeCall addr ''tr'' (geocode gmaps w0 addr ''tr'')]"
    by (rule geocode_address_log)
  from none log have "geocode_address addr gmaps ''tr'' w0 =
      (None, w0 @ [GeocodeCall addr ''tr'' (geocode gmaps w0 addr ''tr'')])"
    by (metis prod.collapse)
  then have "get_neighborhood_insights addr api_key Client w0 =
           (Failed (''Could not geocode the address: '' @ addr) addr,
            w0 @ [GeocodeCall addr ''tr'' (geocode gmaps w0 addr ''tr'')])"
    by (simp add: get_neighborhood_insights_def client)
  then show ?thesis by simp
qed

theorem geocoding_failure_no_queries_witness:
  "get_neighborhood_insights ''Nowhere 1'' ''key'' (\<lambda>k. Inr failing_geocoder) [] =
           (Failed ''Could not geocode the address: Nowhere 1'' ''Nowhere 1'',
            [GeocodeCall ''Nowhere 1'' ''tr'' (Inl ''timeout'')])
         \<and> \<not> ok (fst (get_neighborhood_insights ''Nowhere 1'' ''key'' (\<lambda>k. Inr failing_geocoder) []))
         \<and> filter is_nearby_call
              (snd (get_neighborhood_insights ''Nowhere 1'' ''key'' (\<lambda>k. Inr failing_geocoder) []))
             = []"
proof -
  have client: "(\<lambda>k. Inr failing_geocoder) ''key'' = Inr failing_geocoder" by simp
  have failure: "(\<exists>e. geocode failing_geocoder [] ''Nowhere 1'' ''tr'' = Inl e)
         \<or> geocode failing_geocoder [] ''Nowhere 1'' ''tr'' = Inr []
         \<or> (\<exists>hit hits. geocode failing_geocoder [] ''Nowhere 1'' ''tr'' = Inr (hit # hits)
              \<and> (hit_location hit = None \<or> hit_formatted_address hit = None))"
    by (simp add: failing_geocoder_def)
  from geocoding_failure_no_queries [of "\<lambda>k. Inr failing_geocoder", OF client failure]
  show ?thesis
    by (simp add: failing_geocoder_def)
qed

section \<open>The request handler\<close>

text \<open>
  C10. A POST request whose JSON body carries the empty string as address gets the same
  response as the request with the address key missing, and the handler makes no provider
  call. With the credential configured (the check of lines 32-41 comes first) the response
  is the 400 client error \<^verbatim>\<open>Address is required\<close>.
\<close>

theorem empty_address_rejected:
  assumes post: "http_method request = ''POST''"
      and body: "get_json request = Inr data"
      and empty: "data_address data = Val ''''"
  shows "handler request env_key Client w =
           handler (request\<lparr>get_json := Inr (data\<lparr>data_address := Absent\<rparr>)\<rparr>) env_key Client w
         \<and> snd (handler request env_key Client w) = w
         \<and> (\<forall>api_key. env_key = Some api_key \<and> api_key \<noteq> [] \<longrightarrow>
               handler request env_key Client w =
                 (\<lparr>statusCode = 400, headers = json_headers,
                   body = Error_body ''Address is required''\<rparr>, w))"
  using assms by (simp add: handler_def split: option.splits)

theorem empty_address_rejected_witness:
  "handler empty_address_request (Some ''key'') (\<lambda>k. Inr endless_tokens) [] =
     handler (empty_address_request
                \<lparr>get_json := Inr (\<lparr>data_address = Val ''''\<rparr>\<lparr>data_address := Absent\<rparr>)\<rparr>)
       (Some ''key'') (\<lambda>k. Inr endless_tokens) []
   \<and> snd (handler empty_address_request (Some ''key'') (\<lambda>k. Inr endless_tokens) []) = []
   \<and> handler empty_address_request (Some ''key'') (\<lambda>k. Inr endless_tokens) [] =
       (\<lparr>statusCode = 400, headers = json_headers,
         body = Error_body ''Address is required''\<rparr>, [])"
proof -
  have post: "http_method empty_address_request = ''POST''"
    by (simp add: empty_address_request_def)
  have body: "get_json empty_address_request = Inr \<lparr>data_address = Val ''''\<rparr>"
    by (simp add: empty_address_request_def)
  have empty: "data_address \<lparr>data_address = Val ''''\<rparr> = Val ''''"
    by simp
  have key: "Some ''key'' = Some ''key'' \<and> ''key'' \<noteq> []"
    by simp
  from empty_address_rejected
    [OF post body empty, of "Some ''key''" "\<lambda>k. Inr endless_tokens" "[]"] key
  show ?thesis
    by blast
qed

section \<open>The aggregation\<close>

text \<open>A successful run, in terms of the results of its provider calls.\<close>

lemma insights_of_queries:
  assumes client: "Client api_key = Inr gmaps"
      and geo: "geocode_address addr gmaps ''tr'' w0 = (Some g, w1)"
      and queries: "category_queries gmaps g w1 = (L, w2)"
  shows "get_neighborhood_insights addr api_key Client w0 =
    (Insights
      \<lparr>query = addr, address = formatted_address g, coordinates = (lat g, lng g),
       source = geo_source g,
       social_life =
         \<lparr>cafes = \<lparr>count = length (var_cafes L),
                    top_places = take top_n (sorted_reverse safe_sort_key (var_cafes L))\<rparr>,
          shopping_malls =
            \<lparr>count = length (filter has_mall_tag (var_malls L)),
             top_places =
               take top_n (sorted_reverse safe_sort_key (filter has_mall_tag (var_malls L)))\<rparr>,
          parks = \<lparr>count = length (var_parks L),
                    top_places = take top_n (sorted_reverse safe_sort_key (var_parks L))\<rparr>,
          gyms = \<lparr>count = length (var_gyms L),
                   top_places = take top_n (sorted_reverse safe_sort_key (var_gyms L))\<rparr>\<rparr>,
       family_life =
         \<lparr>schools = \<lparr>count = length (var_schools L),
                      top_places = take top_n (sorted_reverse safe_sort_key (var_schools L))\<rparr>,
          hospitals =
            \<lparr>count = length (var_hospitals L),
             top_places = take top_n (sorted_reverse safe_sort_key (var_hospitals L)),
             nearest = (case var_hospital_nearest L of None \<Rightarrow> None
                        | Some h \<Rightarrow> nearest_name h)\<rparr>,
          pharmacies = \<lparr>count = length (var_pharmacies L),
                         top_places = take top_n (var_pharmacies L)\<rparr>\<rparr>,
       transport =
         \<lparr>subway =
            \<lparr>subway_count = length (var_metros L),
             subway_nearest = (case var_metro_nearest L of None \<Rightarrow> None
                               | Some m \<Rightarrow> nearest_name m),
             alternatives = take top_n (var_metros L)\<rparr>\<rparr>,
       summary =
         \<lparr>headline =
            formatted_address g @ '': '' @ str (length (var_cafes L)) @ '' cafes, ''
            @ str (length (var_parks L)) @ '' parks, '' @ str (length (var_gyms L)) @ '' gyms, ''
            @ str (length (var_schools L)) @ '' schools, ''
            @ str (length (var_hospitals L)) @ '' hospitals, ''
            @ str (length (filter has_mall_tag (var_malls L))) @ '' malls nearby.'',
          highlights =
            \<lparr>cafes_top = summarize_list (sorted_reverse safe_sort_key (var_cafes L)) 3,
             schools_top = summarize_list (sorted_reverse safe_sort_key (var_schools L)) 3,
             malls_top =
               summarize_list
                 (sorted_reverse safe_sort_key (filter has_mall_tag (var_malls L))) 3,
             nearest_hospital = (case var_hospital_nearest L of None \<Rightarrow> None
                                 | Some h \<Rightarrow> nearest_name h),
             nearest_subway = (case var_metro_nearest L of None \<Rightarrow> None
                               | Some m \<Rightarrow> nearest_name m)\<rparr>\<rparr>\<rparr>,
     w2)"
proof -
  obtain cafes_l w2a where q1:
    "find_places_nearby (lat g) (lng g) ''cafe'' gmaps (radii_at ''cafe'') 2 w1 = (cafes_l, w2a)"
    by force
  obtain malls w3 where q2:
    "find_places_nearby (lat g) (lng g) ''shopping_mall'' gmaps (radii_at ''shopping_mall'') 2 w2a
       = (malls, w3)"
    by force
  obtain parks_l w4 where q3:
    "find_places_nearby (lat g) (lng g) ''park'' gmaps (radii_at ''park'') 2 w3 = (parks_l, w4)"
    by force
  obtain gyms_l w5 where q4:
    "find_places_nearby (lat g) (lng g) ''gym'' gmaps (radii_at ''gym'') 2 w4 = (gyms_l, w5)"
    by force
  obtain schools_l w6 where q5:
    "find_places_nearby (lat g) (lng g) ''school'' gmaps (radii_at ''school'') 2 w5
       = (schools_l, w6)"
    by force
  obtain hospitals_l w7 where q6:
    "find_places_nearby (lat g) (lng g) ''hospital'' gmaps (radii_at ''hospital'') 2 w6
       = (hospitals_l, w7)"
    by force
  obtain hospital_nearest w8 where q7:
    "find_nearest_place (lat g) (lng g) ''hospital'' gmaps w7 = (hospital_nearest, w8)"
    by force
  obtain pharmacies_l w9 where q8:
    "find_places_nearby (lat g) (lng g) ''pharmacy'' gmaps (radii_at ''pharmacy'') 2 w8
       = (pharmacies_l, w9)"
    by force
  obtain metros w10 where q9:
    "find_places_nearby (lat g) (lng g) ''subway_station'' gmaps (radii_at ''subway_station'') 2 w9
       = (metros, w10)"
    by force
  obtain metro_nearest w11 where q10:
    "find_nearest_place (lat g) (lng g) ''subway_station'' gmaps w10 = (metro_nearest, w11)"
    by force
  note qs = q1 q2 q3 q4 q5 q6 q7 q8 q9 q10
  from queries have L: "L = \<lparr>var_cafes = cafes_l, var_malls = malls, var_parks = parks_l,
      var_gyms = gyms_l, var_schools = schools_l, var_hospitals = hospitals_l,
      var_hospital_nearest = hospital_nearest, var_pharmacies = pharmacies_l,
      var_metros = metros, var_metro_nearest = metro_nearest\<rparr>" and w2: "w2 = w11"
    by (simp_all add: category_queries_def qs)
  show ?thesis
    by (simp add: get_neighborhood_insights_def client geo qs L w2 Let_def)
qed


lemma insights_sections:
  assumes client: "Client api_key = Inr gmaps"
      and geo: "geocode_address addr gmaps ''tr'' w0 = (Some g, w1)"
      and queries: "category_queries gmaps g w1 = (L, w2)"
      and run: "get_neighborhood_insights addr api_key Client w0 = (res, w)"
  obtains r where "res = Insights r" and "w = w2"
    and "cafes (social_life r) =
           \<lparr>count = length (var_cafes L),
            top_places = take top_n (sorted_reverse safe_sort_key (var_cafes L))\<rparr>"
    and "shopping_malls (social_life r) =
           \<lparr>count = length (filter has_mall_tag (var_malls L)),
            top_places =
              take top_n (sorted_reverse safe_sort_key (filter has_mall_tag (var_malls L)))\<rparr>"
    and "parks (social_life r) =
           \<lparr>count = length (var_parks L),
            top_places = take top_n (sorted_reverse safe_sort_key (var_parks L))\<rparr>"
    and "gyms (social_life r) =
           \<lparr>count = length (var_gyms L),
            top_places = take top_n (sorted_reverse safe_sort_key (var_gyms L))\<rparr>"
    and "schools (family_life r) =
           \<lparr>count = length (var_schools L),
            top_places = take top_n (sorted_reverse safe_sort_key (var_schools L))\<rparr>"
    and "hospitals (family_life r) =
           \<lparr>count = length (var_hospitals L),
            top_places = take top_n (sorted_reverse safe_sort_key (var_hospitals L)),
            nearest = (case var_hospital_nearest L of None \<Rightarrow> None
                       | Some h \<Rightarrow> nearest_name h)\<rparr>"
    and "pharmacies (family_life r) =
           \<lparr>count = length (var_pharmacies L), top_places = take top_n (var_pharmacies L)\<rparr>"
    and "subway (transport r) =
           \<lparr>subway_count = length (var_metros L),
            subway_nearest = (case var_metro_nearest L of None \<Rightarrow> None
                              | Some m \<Rightarrow> nearest_name m),
            alternatives = take top_n (var_metros L)\<rparr>"
proof -
  note res = insights_of_queries [of Client api_key, OF client geo queries, unfolded run]
  from res have w: "w = w2" by simp
  from res obtain r where r: "res = Insights r" by simp
  show thesis
    by (rule that [OF r w]) (use res r in simp_all)
qed

lemma category_queries_stages:
  assumes "category_queries gmaps g w1 = (L, w11)"
  obtains w2 w3 w4 w5 w6 w7 w8 w9 w10 where
    "find_places_nearby (lat g) (lng g) ''cafe'' gmaps (radii_at ''cafe'') 2 w1
       = (var_cafes L, w2)"
    "find_places_nearby (lat g) (lng g) ''shopping_mall'' gmaps (radii_at ''shopping_mall'') 2 w2
       = (var_malls L, w3)"
    "find_places_nearby (lat g) (lng g) ''park'' gmaps (radii_at ''park'') 2 w3
       = (var_parks L, w4)"
    "find_places_nearby (lat g) (lng g) ''gym'' gmaps (radii_at ''gym'') 2 w4
       = (var_gyms L, w5)"
    "find_places_nearby (lat g) (lng g) ''school'' gmaps (radii_at ''school'') 2 w5
       = (var_schools L, w6)"
    "find_places_nearby (lat g) (lng g) ''hospital'' gmaps (radii_at ''hospital'') 2 w6
       = (var_hospitals L, w7)"
    "find_nearest_place (lat g) (lng g) ''hospital'' gmaps w7 = (var_hospital_nearest L, w8)"
    "find_places_nearby (lat g) (lng g) ''pharmacy'' gmaps (radii_at ''pharmacy'') 2 w8
       = (var_pharmacies L, w9)"
    "find_places_nearby (lat g) (lng g) ''subway_station'' gmaps (radii_at ''subway_station'') 2 w9
       = (var_metros L, w10)"
    "find_nearest_place (lat g) (lng g) ''subway_station'' gmaps w10
       = (var_metro_nearest L, w11)"
proof -
  obtain cafes_l w2 where q1:
    "find_places_nearby (lat g) (lng g) ''cafe'' gmaps (radii_at ''cafe'') 2 w1 = (cafes_l, w2)"
    by force
  obtain malls w3 where q2:
    "find_places_nearby (lat g) (lng g) ''shopping_mall'' gmaps (radii_at ''shopping_mall'') 2 w2
       = (malls, w3)"
    by force
  obtain parks_l w4 where q3:
    "find_places_nearby (lat g) (lng g) ''park'' gmaps (radii_at ''park'') 2 w3 = (parks_l, w4)"
    by force
  obtain gyms_l w5 where q4:
    "find_places_nearby (lat g) (lng g) ''gym'' gmaps (radii_at ''gym'') 2 w4 = (gyms_l, w5)"
    by force
  obtain schools_l w6 where q5:
    "find_places_nearby (lat g) (lng g) ''school'' gmaps (radii_at ''school'') 2 w5
       = (schools_l, w6)"
    by force
  obtain hospitals_l w7 where q6:
    "find_places_nearby (lat g) (lng g) ''hospital'' gmaps (radii_at ''hospital'') 2 w6
       = (hospitals_l, w7)"
    by force
  obtain hospital_nearest w8 where q7:
    "find_nearest_place (lat g) (lng g) ''hospital'' gmaps w7 = (hospital_nearest, w8)"
    by force
  obtain pharmacies_l w9 where q8:
    "find_places_nearby (lat g) (lng g) ''pharmacy'' gmaps (radii_at ''pharmacy'') 2 w8
       = (pharmacies_l, w9)"
    by force
  obtain metros w10 where q9:
    "find_places_nearby (lat g) (lng g) ''subway_station'' gmaps (radii_at ''subway_station'') 2 w9
       = (metros, w10)"
    by force
  obtain metro_nearest w11' where q10:
    "find_nearest_place (lat g) (lng g) ''subway_station'' gmaps w10 = (metro_nearest, w11')"
    by force
  note qs = q1 q2 q3 q4 q5 q6 q7 q8 q9 q10
  from assms have L: "L = \<lparr>var_cafes = cafes_l, var_malls = malls, var_parks = parks_l,
      var_gyms = gyms_l, var_schools = schools_l, var_hospitals = hospitals_l,
      var_hospital_nearest = hospital_nearest, var_pharmacies = pharmacies_l,
      var_metros = metros, var_metro_nearest = metro_nearest\<rparr>" and w: "w11 = w11'"
    by (simp_all add: category_queries_def qs)
  show thesis
    by (rule that [of w2 w3 w4 w5 w6 w7 w8 w9 w10]) (simp_all add: L w qs)
qed

section \<open>Failure of one category\<close>


lemma find_nearest_place_log:
  "find_nearest_place la lo t gmaps w = (n, w') \<Longrightarrow>
   \<exists>evs. w' = w @ evs \<and> (\<forall>ev\<in>set evs. \<forall>c. \<not> proximity_failure c ev)"
  by (auto simp: find_nearest_place_def call_places_nearby_def
      split: sum.splits option.splits list.splits)








text \<open>Evaluation of the sample runs.\<close>

lemmas run_defs =
  get_neighborhood_insights_def geocode_address_def find_places_nearby_def
  find_nearest_place_def call_places_nearby_def extend_results_def paginate.simps
  Let_def radii_at_def radii_def top_n_def normalize_def has_mall_tag_def
  sorted_reverse_def safe_sort_key_def summarize_list_def

lemmas sample_defs =
  sample_provider_def sample_results_def sample_raw_def sample_geo_def

lemma sample_geocode:
  "geocode_address ''Moda'' sample_provider ''tr'' [] =
     (Some sample_geo,
      [GeocodeCall ''Moda'' ''tr''
         (Inr [\<lparr>hit_location = Some (41, 29), hit_formatted_address = Some ''Moda, Istanbul''\<rparr>])])"
  by (simp add: geocode_address_def sample_defs)









section \<open>The sections of a successful report\<close>

lemma sample_client: "(\<lambda>k. Inr sample_provider) ''key'' = Inr sample_provider"
  by simp

lemma sample_geocode_log:
  "geocode_address ''Moda'' sample_provider ''tr'' [] = (Some sample_geo, sample_log)"
  by (simp add: sample_geocode sample_log_def)

lemma sample_queries:
  "category_queries sample_provider sample_geo sample_log =
     (sample_locals, snd (category_queries sample_provider sample_geo sample_log))"
  by (simp add: sample_locals_def)

lemma sample_run_eq:
  "get_neighborhood_insights ''Moda'' ''key'' (\<lambda>k. Inr sample_provider) [] =
     (fst sample_run, snd sample_run)"
  by (simp add: sample_run_def)

lemma sample_ok: "ok (fst sample_run)"
  by (simp add: sample_run_def run_defs sample_defs)

lemma has_mall_tag_iff:
  "has_mall_tag m \<longleftrightarrow> (\<exists>ts. types m = Some ts \<and> ''shopping_mall'' \<in> set ts)"
proof (cases "types m")
  case None
  then show ?thesis by (simp add: has_mall_tag_def)
next
  case (Some ts)
  then show ?thesis by (cases ts) (simp_all add: has_mall_tag_def)
qed

lemma sample_malls_found:
  "map name (var_malls sample_locals) = [Some ''Carsi'', Some ''Otel'', Some ''Pasaj'', Some ''Bufe'']"
  by (simp add: sample_locals_def category_queries_def sample_log_def run_defs sample_defs)

lemma sample_malls_section:
  "count (shopping_malls (social_life (report (fst sample_run)))) = 2
   \<and> map name (top_places (shopping_malls (social_life (report (fst sample_run)))))
       = [Some ''Pasaj'', Some ''Carsi'']"
  by (simp add: sample_run_def run_defs sample_defs)

text \<open>
  C5. In a successful report, every record of the shopping malls section's \<open>top\<close> list is one of
  the records returned for the \<^verbatim>\<open>shopping_mall\<close> query and carries the tag
  \<^verbatim>\<open>shopping_mall\<close> in its types; the section's count is the number of returned records that
  carry the tag, and the list is the ranking of exactly those records, cut to five.
\<close>

theorem shopping_malls_tag_filter:
  assumes client: "Client api_key = Inr gmaps"
      and geo: "geocode_address addr gmaps ''tr'' w0 = (Some g, w1)"
      and queries: "category_queries gmaps g w1 = (L, w2)"
      and run: "get_neighborhood_insights addr api_key Client w0 = (res, w)"
  shows "\<exists>r. res = Insights r
     \<and> (\<forall>m\<in>set (top_places (shopping_malls (social_life r))).
           m \<in> set (var_malls L) \<and> (\<exists>ts. types m = Some ts \<and> ''shopping_mall'' \<in> set ts))
     \<and> count (shopping_malls (social_life r)) =
         length (filter (\<lambda>m. \<exists>ts. types m = Some ts \<and> ''shopping_mall'' \<in> set ts) (var_malls L))
     \<and> top_places (shopping_malls (social_life r)) =
         take 5 (sorted_reverse safe_sort_key
                   (filter (\<lambda>m. \<exists>ts. types m = Some ts \<and> ''shopping_mall'' \<in> set ts)
                      (var_malls L)))
     \<and> (\<exists>h h'. find_places_nearby (lat g) (lng g) ''shopping_mall'' gmaps 5000 2 h
                  = (var_malls L, h'))"
proof -
  have tag: "has_mall_tag = (\<lambda>m. \<exists>ts. types m = Some ts \<and> ''shopping_mall'' \<in> set ts)"
    by (rule ext) (rule has_mall_tag_iff)
  from insights_sections [OF client geo queries run] obtain r where r: "res = Insights r"
    and malls: "shopping_malls (social_life r) =
           \<lparr>count = length (filter has_mall_tag (var_malls L)),
            top_places =
              take top_n (sorted_reverse safe_sort_key (filter has_mall_tag (var_malls L)))\<rparr>"
    by blast
  from category_queries_stages [OF queries] obtain h h' where
    "find_places_nearby (lat g) (lng g) ''shopping_mall'' gmaps (radii_at ''shopping_mall'') 2 h
       = (var_malls L, h')"
    by blast
  then have call: "\<exists>h h'. find_places_nearby (lat g) (lng g) ''shopping_mall'' gmaps 5000 2 h
                  = (var_malls L, h')"
    by (auto simp: radii_at_def radii_def)
  have mem: "m \<in> set (var_malls L) \<and> (\<exists>ts. types m = Some ts \<and> ''shopping_mall'' \<in> set ts)"
    if "m \<in> set (top_places (shopping_malls (social_life r)))" for m
  proof -
    from that have "m \<in> set (sorted_reverse safe_sort_key (filter has_mall_tag (var_malls L)))"
      by (auto simp: malls dest: in_set_takeD)
    then have "m \<in> set (filter has_mall_tag (var_malls L))"
      by (simp add: set_sorted_reverse)
    then show ?thesis
      by (simp add: tag)
  qed
  show ?thesis
    apply (rule exI [of _ r])
    apply (intro conjI)
    subgoal by (rule r)
    subgoal using mem by blast
    subgoal by (simp add: malls tag)
    subgoal by (simp add: malls tag top_n_def)
    subgoal by (rule call)
    done
qed

theorem shopping_malls_tag_filter_witness:
  "map name (var_malls sample_locals) = [Some ''Carsi'', Some ''Otel'', Some ''Pasaj'', Some ''Bufe'']
   \<and> count (shopping_malls (social_life (report (fst sample_run)))) = 2
   \<and> map name (top_places (shopping_malls (social_life (report (fst sample_run)))))
       = [Some ''Pasaj'', Some ''Carsi'']
   \<and> (\<exists>r. fst sample_run = Insights r
     \<and> (\<forall>m\<in>set (top_places (shopping_malls (social_life r))).
           m \<in> set (var_malls sample_locals)
           \<and> (\<exists>ts. types m = Some ts \<and> ''shopping_mall'' \<in> set ts))
     \<and> count (shopping_malls (social_life r)) =
         length (filter (\<lambda>m. \<exists>ts. types m = Some ts \<and> ''shopping_mall'' \<in> set ts)
                   (var_malls sample_locals))
     \<and> top_places (shopping_malls (social_life r)) =
         take 5 (sorted_reverse safe_sort_key
                   (filter (\<lambda>m. \<exists>ts. types m = Some ts \<and> ''shopping_mall'' \<in> set ts)
                      (var_malls sample_locals)))
     \<and> (\<exists>h h'. find_places_nearby (lat sample_geo) (lng sample_geo) ''shopping_mall''
                  sample_provider 5000 2 h
                  = (var_malls sample_locals, h')))"
proof -
  note t = shopping_malls_tag_filter
      [of "\<lambda>k. Inr sample_provider" "''key''", OF sample_client sample_geocode_log
       sample_queries sample_run_eq]
  from sample_malls_found sample_malls_section [THEN conjunct1]
    sample_malls_section [THEN conjunct2] t
  show ?thesis
    by (intro conjI)
qed

lemma sample_cafes_section:
  "count (cafes (social_life (report (fst sample_run)))) = 6
   \<and> length (top_places (cafes (social_life (report (fst sample_run))))) = 5
   \<and> length (var_cafes sample_locals) = 6"
  by (simp add: sample_run_def sample_locals_def category_queries_def sample_log_def
      run_defs sample_defs)

text \<open>
  C6. In a successful report the count of every section is the length of the list the
  section is cut from: the list returned by the category's search, after the tag filter for
  the shopping malls. The list of places of the section is the first five of that list
  (ranked, where the section is ranked), so it has \<open>min 5 count\<close> elements; the count is
  not bounded by five.
\<close>

theorem count_is_pre_truncation_size:
  assumes client: "Client api_key = Inr gmaps"
      and geo: "geocode_address addr gmaps ''tr'' w0 = (Some g, w1)"
      and queries: "category_queries gmaps g w1 = (L, w2)"
      and run: "get_neighborhood_insights addr api_key Client w0 = (res, w)"
  shows "\<exists>r. res = Insights r
     \<and> count (cafes (social_life r)) = length (var_cafes L)
     \<and> top_places (cafes (social_life r)) = take 5 (sorted_reverse safe_sort_key (var_cafes L))
     \<and> count (shopping_malls (social_life r)) = length (filter has_mall_tag (var_malls L))
     \<and> top_places (shopping_malls (social_life r)) =
         take 5 (sorted_reverse safe_sort_key (filter has_mall_tag (var_malls L)))
     \<and> count (parks (social_life r)) = length (var_parks L)
     \<and> top_places (parks (social_life r)) = take 5 (sorted_reverse safe_sort_key (var_parks L))
     \<and> count (gyms (social_life r)) = length (var_gyms L)
     \<and> top_places (gyms (social_life r)) = take 5 (sorted_reverse safe_sort_key (var_gyms L))
     \<and> count (schools (family_life r)) = length (var_schools L)
     \<and> top_places (schools (family_life r)) =
         take 5 (sorted_reverse safe_sort_key (var_schools L))
     \<and> count (hospitals (family_life r)) = length (var_hospitals L)
     \<and> top_places (hospitals (family_life r)) =
         take 5 (sorted_reverse safe_sort_key (var_hospitals L))
     \<and> count (pharmacies (family_life r)) = length (var_pharmacies L)
     \<and> top_places (pharmacies (family_life r)) = take 5 (var_pharmacies L)
     \<and> subway_count (subway (transport r)) = length (var_metros L)
     \<and> alternatives (subway (transport r)) = take 5 (var_metros L)
     \<and> length (top_places (cafes (social_life r))) = min 5 (count (cafes (social_life r)))
     \<and> length (top_places (shopping_malls (social_life r)))
         = min 5 (count (shopping_malls (social_life r)))
     \<and> length (top_places (parks (social_life r))) = min 5 (count (parks (social_life r)))
     \<and> length (top_places (gyms (social_life r))) = min 5 (count (gyms (social_life r)))
     \<and> length (top_places (schools (family_life r))) = min 5 (count (schools (family_life r)))
     \<and> length (top_places (hospitals (family_life r)))
         = min 5 (count (hospitals (family_life r)))
     \<and> length (top_places (pharmacies (family_life r)))
         = min 5 (count (pharmacies (family_life r)))
     \<and> length (alternatives (subway (transport r)))
         = min 5 (subway_count (subway (transport r)))"
proof -
  from insights_sections [OF client geo queries run] obtain r where r: "res = Insights r"
    and s: "cafes (social_life r) =
           \<lparr>count = length (var_cafes L),
            top_places = take top_n (sorted_reverse safe_sort_key (var_cafes L))\<rparr>"
      "shopping_malls (social_life r) =
           \<lparr>count = length (filter has_mall_tag (var_malls L)),
            top_places =
              take top_n (sorted_reverse safe_sort_key (filter has_mall_tag (var_malls L)))\<rparr>"
      "parks (social_life r) =
           \<lparr>count = length (var_parks L),
            top_places = take top_n (sorted_reverse safe_sort_key (var_parks L))\<rparr>"
      "gyms (social_life r) =
           \<lparr>count = length (var_gyms L),
            top_places = take top_n (sorted_reverse safe_sort_key (var_gyms L))\<rparr>"
      "schools (family_life r) =
           \<lparr>count = length (var_schools L),
            top_places = take top_n (sorted_reverse safe_sort_key (var_schools L))\<rparr>"
      "hospitals (family_life r) =
           \<lparr>count = length (var_hospitals L),
            top_places = take top_n (sorted_reverse safe_sort_key (var_hospitals L)),
            nearest = (case var_hospital_nearest L of None \<Rightarrow> None
                       | Some h \<Rightarrow> nearest_name h)\<rparr>"
      "pharmacies (family_life r) =
           \<lparr>count = length (var_pharmacies L), top_places = take top_n (var_pharmacies L)\<rparr>"
      "subway (transport r) =
           \<lparr>subway_count = length (var_metros L),
            subway_nearest = (case var_metro_nearest L of None \<Rightarrow> None
                              | Some m \<Rightarrow> nearest_name m),
            alternatives = take top_n (var_metros L)\<rparr>"
    by blast
  show ?thesis
    apply (rule exI [of _ r])
    apply (intro conjI)
    apply (rule r)
    apply (simp_all add: s top_n_def length_sorted_reverse min.commute)
    done
qed

theorem count_is_pre_truncation_size_witness:
  "count (cafes (social_life (report (fst sample_run)))) = 6
   \<and> length (top_places (cafes (social_life (report (fst sample_run))))) = 5
   \<and> length (var_cafes sample_locals) = 6
   \<and> (\<exists>r. fst sample_run = Insights r
     \<and> count (cafes (social_life r)) = length (var_cafes sample_locals)
     \<and> top_places (cafes (social_life r)) =
         take 5 (sorted_reverse safe_sort_key (var_cafes sample_locals))
     \<and> count (shopping_malls (social_life r)) =
         length (filter has_mall_tag (var_malls sample_locals))
     \<and> top_places (shopping_malls (social_life r)) =
         take 5 (sorted_reverse safe_sort_key (filter has_mall_tag (var_malls sample_locals)))
     \<and> count (parks (social_life r)) = length (var_parks sample_locals)
     \<and> top_places (parks (social_life r)) =
         take 5 (sorted_reverse safe_sort_key (var_parks sample_locals))
     \<and> count (gyms (social_life r)) = length (var_gyms sample_locals)
     \<and> top_places (gyms (social_life r)) =
         take 5 (sorted_reverse safe_sort_key (var_gyms sample_locals))
     \<and> count (schools (family_life r)) = length (var_schools sample_locals)
     \<and> top_places (schools (family_life r)) =
         take 5 (sorted_reverse safe_sort_key (var_schools sample_locals))
     \<and> count (hospitals (family_life r)) = length (var_hospitals sample_locals)
     \<and> top_places (hospitals (family_life r)) =
         take 5 (sorted_reverse safe_sort_key (var_hospitals sample_locals))
     \<and> count (pharmacies (family_life r)) = length (var_pharmacies sample_locals)
     \<and> top_places (pharmacies (family_life r)) = take 5 (var_pharmacies sample_locals)
     \<and> subway_count (subway (transport r)) = length (var_metros sample_locals)
     \<and> alternatives (subway (transport r)) = take 5 (var_metros sample_locals)
     \<and> length (top_places (cafes (social_life r))) = min 5 (count (cafes (social_life r)))
     \<and> length (top_places (shopping_malls (social_life r)))
         = min 5 (count (shopping_malls (social_life r)))
     \<and> length (top_places (parks (social_life r))) = min 5 (count (parks (social_life r)))
     \<and> length (top_places (gyms (social_life r))) = min 5 (count (gyms (social_life r)))
     \<and> length (top_places (schools (family_life r))) = min 5 (count (schools (family_life r)))
     \<and> length (top_places (hospitals (family_life r)))
         = min 5 (count (hospitals (family_life r)))
     \<and> length (top_places (pharmacies (family_life r)))
         = min 5 (count (pharmacies (family_life r)))
     \<and> length (alternatives (subway (transport r)))
         = min 5 (subway_count (subway (transport r))))"
proof -
  note t = count_is_pre_truncation_size
      [of "\<lambda>k. Inr sample_provider" "''key''", OF sample_client sample_geocode_log
       sample_queries sample_run_eq]
  from sample_cafes_section [THEN conjunct1] sample_cafes_section [THEN conjunct2, THEN conjunct1]
    sample_cafes_section [THEN conjunct2, THEN conjunct2] t
  show ?thesis
    by (intro conjI)
qed

lemma find_places_nearby_arrival_order:
  assumes "find_places_nearby la lo t gmaps rad max_pages h = (ps, h')"
  shows "ps = [] \<or> ps = map normalize (concat (map page_results (drop (length h) h')))"
proof -
  from find_places_nearby_trace [OF assms] obtain out evs where
    "h' = h @ NearbyCall (first_request la lo t rad) out # evs"
    "ps = (if \<exists>ev\<in>set (NearbyCall (first_request la lo t rad) out # evs). failed_call ev
           then []
           else map normalize
                  (concat (map page_results (NearbyCall (first_request la lo t rad) out # evs))))"
    by blast
  then show ?thesis
    by (simp split: if_splits)
qed

lemma sample_unranked:
  "map name (top_places (pharmacies (family_life (report (fst sample_run)))))
     = [Some ''Eczane A'', Some ''Eczane B'']
   \<and> map name (sorted_reverse safe_sort_key (var_pharmacies sample_locals))
     = [Some ''Eczane B'', Some ''Eczane A'']
   \<and> map name (alternatives (subway (transport (report (fst sample_run)))))
     = [Some ''Metro A'', Some ''Metro B'']
   \<and> map name (sorted_reverse safe_sort_key (var_metros sample_locals))
     = [Some ''Metro B'', Some ''Metro A'']
   \<and> map name (var_cafes sample_locals)
     = [Some ''Kahve'', Some ''Cay'', Some ''Mola'', Some ''Simit'', Some ''Demlik'',
        Some ''Fincan'']
   \<and> map name (top_places (cafes (social_life (report (fst sample_run)))))
     = [Some ''Demlik'', Some ''Mola'', Some ''Kahve'', Some ''Fincan'', Some ''Simit'']"
  by (simp add: sample_run_def sample_locals_def category_queries_def sample_log_def
      run_defs sample_defs)

text \<open>
  C9. In a successful report the pharmacies section's \<open>top\<close> and the subway section's
  \<open>alternatives\<close> are the first five records of what \<^verbatim>\<open>find_places_nearby\<close> returned, which
  is the pages in arrival order; no ranking is applied. The lists of the cafes, shopping
  malls, parks, gyms, schools and hospitals sections are the first five of the ranked result.
\<close>

theorem ranked_and_unranked_sections:
  assumes client: "Client api_key = Inr gmaps"
      and geo: "geocode_address addr gmaps ''tr'' w0 = (Some g, w1)"
      and queries: "category_queries gmaps g w1 = (L, w2)"
      and run: "get_neighborhood_insights addr api_key Client w0 = (res, w)"
  shows "\<exists>r. res = Insights r
     \<and> top_places (pharmacies (family_life r)) = take 5 (var_pharmacies L)
     \<and> alternatives (subway (transport r)) = take 5 (var_metros L)
     \<and> (\<exists>h h'. find_places_nearby (lat g) (lng g) ''pharmacy'' gmaps 2000 2 h
                  = (var_pharmacies L, h')
          \<and> (var_pharmacies L = []
             \<or> var_pharmacies L
                = map normalize (concat (map page_results (drop (length h) h')))))
     \<and> (\<exists>h h'. find_places_nearby (lat g) (lng g) ''subway_station'' gmaps 2000 2 h
                  = (var_metros L, h')
          \<and> (var_metros L = []
             \<or> var_metros L = map normalize (concat (map page_results (drop (length h) h')))))
     \<and> top_places (cafes (social_life r)) = take 5 (sorted_reverse safe_sort_key (var_cafes L))
     \<and> top_places (shopping_malls (social_life r)) =
         take 5 (sorted_reverse safe_sort_key (filter has_mall_tag (var_malls L)))
     \<and> top_places (parks (social_life r)) = take 5 (sorted_reverse safe_sort_key (var_parks L))
     \<and> top_places (gyms (social_life r)) = take 5 (sorted_reverse safe_sort_key (var_gyms L))
     \<and> top_places (schools (family_life r)) =
         take 5 (sorted_reverse safe_sort_key (var_schools L))
     \<and> top_places (hospitals (family_life r)) =
         take 5 (sorted_reverse safe_sort_key (var_hospitals L))"
proof -
  from insights_sections [OF client geo queries run] obtain r where r: "res = Insights r"
    and s: "cafes (social_life r) =
           \<lparr>count = length (var_cafes L),
            top_places = take top_n (sorted_reverse safe_sort_key (var_cafes L))\<rparr>"
      "shopping_malls (social_life r) =
           \<lparr>count = length (filter has_mall_tag (var_malls L)),
            top_places =
              take top_n (sorted_reverse safe_sort_key (filter has_mall_tag (var_malls L)))\<rparr>"
      "parks (social_life r) =
           \<lparr>count = length (var_parks L),
            top_places = take top_n (sorted_reverse safe_sort_key (var_parks L))\<rparr>"
      "gyms (social_life r) =
           \<lparr>count = length (var_gyms L),
            top_places = take top_n (sorted_reverse safe_sort_key (var_gyms L))\<rparr>"
      "schools (family_life r) =
           \<lparr>count = length (var_schools L),
            top_places = take top_n (sorted_reverse safe_sort_key (var_schools L))\<rparr>"
      "hospitals (family_life r) =
           \<lparr>count = length (var_hospitals L),
            top_places = take top_n (sorted_reverse safe_sort_key (var_hospitals L)),
            nearest = (case var_hospital_nearest L of None \<Rightarrow> None
                       | Some h \<Rightarrow> nearest_name h)\<rparr>"
      "pharmacies (family_life r) =
           \<lparr>count = length (var_pharmacies L), top_places = take top_n (var_pharmacies L)\<rparr>"
      "subway (transport r) =
           \<lparr>subway_count = length (var_metros L),
            subway_nearest = (case var_metro_nearest L of None \<Rightarrow> None
                              | Some m \<Rightarrow> nearest_name m),
            alternatives = take top_n (var_metros L)\<rparr>"
    by blast
  from category_queries_stages [OF queries] obtain h8 h9 h10 where
    ph: "find_places_nearby (lat g) (lng g) ''pharmacy'' gmaps (radii_at ''pharmacy'') 2 h8
       = (var_pharmacies L, h9)"
    and me: "find_places_nearby (lat g) (lng g) ''subway_station'' gmaps
       (radii_at ''subway_station'') 2 h9 = (var_metros L, h10)"
    by blast
  have rad: "radii_at ''pharmacy'' = 2000" "radii_at ''subway_station'' = 2000"
    by (simp_all add: radii_at_def radii_def)
  have pharm: "\<exists>h h'. find_places_nearby (lat g) (lng g) ''pharmacy'' gmaps 2000 2 h
                  = (var_pharmacies L, h')
          \<and> (var_pharmacies L = []
             \<or> var_pharmacies L
                = map normalize (concat (map page_results (drop (length h) h'))))"
    using ph find_places_nearby_arrival_order [OF ph] unfolding rad by blast
  have metro: "\<exists>h h'. find_places_nearby (lat g) (lng g) ''subway_station'' gmaps 2000 2 h
                  = (var_metros L, h')
          \<and> (var_metros L = []
             \<or> var_metros L = map normalize (concat (map page_results (drop (length h) h'))))"
    using me find_places_nearby_arrival_order [OF me] unfolding rad by blast
  show ?thesis
    apply (rule exI [of _ r])
    apply (intro conjI)
    subgoal by (rule r)
    subgoal by (simp add: s top_n_def)
    subgoal by (simp add: s top_n_def)
    subgoal by (rule pharm)
    subgoal by (rule metro)
    apply (simp_all add: s top_n_def)
    done
qed

theorem ranked_and_unranked_sections_witness:
  "(map name (top_places (pharmacies (family_life (report (fst sample_run)))))
     = [Some ''Eczane A'', Some ''Eczane B'']
   \<and> map name (sorted_reverse safe_sort_key (var_pharmacies sample_locals))
     = [Some ''Eczane B'', Some ''Eczane A'']
   \<and> map name (alternatives (subway (transport (report (fst sample_run)))))
     = [Some ''Metro A'', Some ''Metro B'']
   \<and> map name (sorted_reverse safe_sort_key (var_metros sample_locals))
     = [Some ''Metro B'', Some ''Metro A'']
   \<and> map name (var_cafes sample_locals)
     = [Some ''Kahve'', Some ''Cay'', Some ''Mola'', Some ''Simit'', Some ''Demlik'',
        Some ''Fincan'']
   \<and> map name (top_places (cafes (social_life (report (fst sample_run)))))
     = [Some ''Demlik'', Some ''Mola'', Some ''Kahve'', Some ''Fincan'', Some ''Simit''])
   \<and> (\<exists>r. fst sample_run = Insights r
     \<and> top_places (pharmacies (family_life r)) = take 5 (var_pharmacies sample_locals)
     \<and> alternatives (subway (transport r)) = take 5 (var_metros sample_locals)
     \<and> (\<exists>h h'. find_places_nearby (lat sample_geo) (lng sample_geo) ''pharmacy''
                  sample_provider 2000 2 h = (var_pharmacies sample_locals, h')
          \<and> (var_pharmacies sample_locals = []
             \<or> var_pharmacies sample_locals
                = map normalize (concat (map page_results (drop (length h) h')))))
     \<and> (\<exists>h h'. find_places_nearby (lat sample_geo) (lng sample_geo) ''subway_station''
                  sample_provider 2000 2 h = (var_metros sample_locals, h')
          \<and> (var_metros sample_locals = []
             \<or> var_metros sample_locals
                = map normalize (concat (map page_results (drop (length h) h')))))
     \<and> top_places (cafes (social_life r)) =
         take 5 (sorted_reverse safe_sort_key (var_cafes sample_locals))
     \<and> top_places (shopping_malls (social_life r)) =
         take 5 (sorted_reverse safe_sort_key (filter has_mall_tag (var_malls sample_locals)))
     \<and> top_places (parks (social_life r)) =
         take 5 (sorted_reverse safe_sort_key (var_parks sample_locals))
     \<and> top_places (gyms (social_life r)) =
         take 5 (sorted_reverse safe_sort_key (var_gyms sample_locals))
     \<and> top_places (schools (family_life r)) =
         take 5 (sorted_reverse safe_sort_key (var_schools sample_locals))
     \<and> top_places (hospitals (family_life r)) =
         take 5 (sorted_reverse safe_sort_key (var_hospitals sample_locals)))"
proof -
  note t = ranked_and_unranked_sections
      [of "\<lambda>k. Inr sample_provider" "''key''", OF sample_client sample_geocode_log
       sample_queries sample_run_eq]
  from sample_unranked t show ?thesis
    by (rule conjI)
qed

section \<open>The nearest place\<close>

lemma sample_search:
  "find_places_nearby la lo t sample_provider rad 2 h =
     ((case sample_results t of Val rs \<Rightarrow> map normalize rs | _ \<Rightarrow> []),
      h @ [NearbyCall (first_request la lo t rad)
             (Inr \<lparr>results = sample_results t, next_page_token = Absent\<rparr>)])"
  by (cases "sample_results t")
     (simp_all add: find_places_nearby_def call_places_nearby_def extend_results_def
        paginate.simps sample_provider_def first_request_def)

lemma rerated_search:
  "find_places_nearby la lo t rerated_provider rad 2 h =
     ((case sample_results t of Val rs \<Rightarrow> map normalize rs | _ \<Rightarrow> []),
      h @ [NearbyCall (first_request la lo t rad)
             (Inr \<lparr>results = sample_results t, next_page_token = Absent\<rparr>)])"
  by (cases "sample_results t")
     (simp_all add: find_places_nearby_def call_places_nearby_def extend_results_def
        paginate.simps sample_provider_def rerated_provider_def first_request_def)

lemma sample_nearest_search:
  "find_nearest_place la lo t sample_provider h =
     ((case sample_results t of
         Val (p # ps) \<Rightarrow>
           Some \<lparr>nearest_name = dict_get (raw_name p), nearest_rating = dict_get (raw_rating p)\<rparr>
       | _ \<Rightarrow> None),
      h @ [NearbyCall (distance_request la lo t)
             (Inr \<lparr>results = sample_results t, next_page_token = Absent\<rparr>)])"
  by (simp add: find_nearest_place_def call_places_nearby_def sample_provider_def
      distance_request_def split: field.splits list.splits)

lemma rerated_nearest_search:
  "find_nearest_place la lo ''hospital'' rerated_provider h =
     (Some \<lparr>nearest_name = Some ''Devlet Hastanesi'', nearest_rating = Some 1\<rparr>,
      h @ [NearbyCall (distance_request la lo ''hospital'')
             (Inr \<lparr>results = Val [sample_raw ''Devlet Hastanesi'' (Val 1) (Val 410) (Val [''hospital''])],
                    next_page_token = Absent\<rparr>)])"
  "t \<noteq> ''hospital'' \<Longrightarrow>
   find_nearest_place la lo t rerated_provider h = find_nearest_place la lo t sample_provider h"
  by (simp_all add: find_nearest_place_def call_places_nearby_def sample_provider_def
      rerated_provider_def distance_request_def sample_raw_def)

lemmas sample_searches =
  sample_search sample_nearest_search

lemmas rerated_searches =
  rerated_search rerated_nearest_search

lemma rerated_geocode_log:
  "geocode_address ''Moda'' rerated_provider ''tr'' [] = (Some sample_geo, sample_log)"
  by (simp add: geocode_address_def rerated_provider_def sample_defs sample_log_def)

lemma sample_runs_ok: "ok (fst sample_run) \<and> ok (fst rerated_run)"
  by (simp add: sample_run_def rerated_run_def sample_geocode_log rerated_geocode_log
      get_neighborhood_insights_def Let_def sample_searches rerated_searches)

lemma sample_hospital_nearest: "var_hospital_nearest sample_locals
       = Some \<lparr>nearest_name = Some ''Devlet Hastanesi'', nearest_rating = Some (16 / 5)\<rparr>"
  by (simp add: sample_locals_def category_queries_def Let_def sample_searches
      sample_results_def sample_raw_def)

lemma rerated_hospital_nearest: "var_hospital_nearest rerated_locals
       = Some \<lparr>nearest_name = Some ''Devlet Hastanesi'', nearest_rating = Some 1\<rparr>"
  by (simp add: rerated_locals_def category_queries_def Let_def sample_searches
      rerated_searches)

lemma sample_nearest_field: "nearest (hospitals (family_life (report (fst sample_run)))) = Some ''Devlet Hastanesi''"
  by (simp add: sample_run_def sample_geocode_log get_neighborhood_insights_def Let_def
      sample_searches sample_results_def sample_raw_def)

lemma rerated_same_section: "hospitals (family_life (report (fst sample_run)))
       = hospitals (family_life (report (fst rerated_run)))"
  by (simp add: sample_run_def rerated_run_def sample_geocode_log rerated_geocode_log
      get_neighborhood_insights_def Let_def sample_searches rerated_searches
      sample_results_def sample_raw_def)

lemma find_nearest_place_first:
  "fst (find_nearest_place la lo t gmaps h) =
     (case places_nearby gmaps h (distance_request la lo t) of
        Inl e \<Rightarrow> None
      | Inr resp \<Rightarrow>
          (case dict_get (results resp) of
             None \<Rightarrow> None
           | Some [] \<Rightarrow> None
           | Some (p # ps) \<Rightarrow>
               Some \<lparr>nearest_name = dict_get (raw_name p),
                      nearest_rating = dict_get (raw_rating p)\<rparr>))"
  by (simp add: find_nearest_place_def call_places_nearby_def distance_request_def
      split: sum.splits option.splits list.splits)

text \<open>
  C7 as stated: the \<open>nearest\<close> field read as the record of the closest place.
  In the run against the sample provider the closest hospital is the record with the name
  \<open>Devlet Hastanesi\<close> and the rating 3.2, and the field is the string \<open>Devlet Hastanesi\<close>.
  Against the provider that differs only in that record's rating (1 instead of 3.2) the
  hospital section is the same: the field does not hold the record.
\<close>

theorem nearest_field_is_record_counterexample:
  "ok (fst sample_run) \<and> ok (fst rerated_run)
   \<and> var_hospital_nearest sample_locals
       = Some \<lparr>nearest_name = Some ''Devlet Hastanesi'', nearest_rating = Some (16 / 5)\<rparr>
   \<and> var_hospital_nearest rerated_locals
       = Some \<lparr>nearest_name = Some ''Devlet Hastanesi'', nearest_rating = Some 1\<rparr>
   \<and> nearest (hospitals (family_life (report (fst sample_run)))) = Some ''Devlet Hastanesi''
   \<and> hospitals (family_life (report (fst sample_run)))
       = hospitals (family_life (report (fst rerated_run)))"
  by (intro conjI sample_runs_ok [THEN conjunct1] sample_runs_ok [THEN conjunct2]
      sample_hospital_nearest rerated_hospital_nearest sample_nearest_field
      rerated_same_section)

lemma category_queries_nearest:
  assumes "category_queries gmaps g w1 = (L, w11)"
  obtains h7 h10 where
    "var_hospital_nearest L = fst (find_nearest_place (lat g) (lng g) ''hospital'' gmaps h7)"
    "var_metro_nearest L = fst (find_nearest_place (lat g) (lng g) ''subway_station'' gmaps h10)"
proof -
  from assms obtain w2 w3 w4 w5 w6 w7 w8 w9 w10 where
    "find_places_nearby (lat g) (lng g) ''cafe'' gmaps (radii_at ''cafe'') 2 w1
       = (var_cafes L, w2)"
    "find_places_nearby (lat g) (lng g) ''shopping_mall'' gmaps (radii_at ''shopping_mall'') 2 w2
       = (var_malls L, w3)"
    "find_places_nearby (lat g) (lng g) ''park'' gmaps (radii_at ''park'') 2 w3
       = (var_parks L, w4)"
    "find_places_nearby (lat g) (lng g) ''gym'' gmaps (radii_at ''gym'') 2 w4
       = (var_gyms L, w5)"
    "find_places_nearby (lat g) (lng g) ''school'' gmaps (radii_at ''school'') 2 w5
       = (var_schools L, w6)"
    "find_places_nearby (lat g) (lng g) ''hospital'' gmaps (radii_at ''hospital'') 2 w6
       = (var_hospitals L, w7)"
    and q7: "find_nearest_place (lat g) (lng g) ''hospital'' gmaps w7
       = (var_hospital_nearest L, w8)"
    and "find_places_nearby (lat g) (lng g) ''pharmacy'' gmaps (radii_at ''pharmacy'') 2 w8
       = (var_pharmacies L, w9)"
    "find_places_nearby (lat g) (lng g) ''subway_station'' gmaps (radii_at ''subway_station'') 2 w9
       = (var_metros L, w10)"
    and q10: "find_nearest_place (lat g) (lng g) ''subway_station'' gmaps w10
       = (var_metro_nearest L, w11)"
    by (rule category_queries_stages)
  show thesis
    by (rule that [of w7 w10]) (simp_all add: q7 q10)
qed

lemma sample_nearest:
  "nearest (hospitals (family_life (report (fst sample_run)))) = Some ''Devlet Hastanesi''
   \<and> subway_nearest (subway (transport (report (fst sample_run)))) = Some ''Metro A''"
  by (simp add: sample_run_def sample_geocode_log get_neighborhood_insights_def Let_def
      sample_searches sample_results_def sample_raw_def)

text \<open>
  C7, as the code has it. In a successful report the \<open>nearest\<close> field of the hospital and
  subway sections is the name of the place that \<^verbatim>\<open>find_nearest_place\<close> returned for the
  type: the name of the first result of the distance-ranked query. It is absent when the
  query raised or returned no result, or when that result has no name. The field is a
  string, not a record; the rating of the place is not part of it.
\<close>

theorem nearest_field_is_name:
  assumes client: "Client api_key = Inr gmaps"
      and geo: "geocode_address addr gmaps ''tr'' w0 = (Some g, w1)"
      and queries: "category_queries gmaps g w1 = (L, w2)"
      and run: "get_neighborhood_insights addr api_key Client w0 = (res, w)"
  shows "\<exists>r. res = Insights r
     \<and> nearest (hospitals (family_life r))
         = (case var_hospital_nearest L of None \<Rightarrow> None | Some p \<Rightarrow> nearest_name p)
     \<and> subway_nearest (subway (transport r))
         = (case var_metro_nearest L of None \<Rightarrow> None | Some p \<Rightarrow> nearest_name p)
     \<and> (\<exists>h. var_hospital_nearest L = fst (find_nearest_place (lat g) (lng g) ''hospital'' gmaps h)
          \<and> var_hospital_nearest L =
              (case places_nearby gmaps h (distance_request (lat g) (lng g) ''hospital'') of
                 Inl e \<Rightarrow> None
               | Inr resp \<Rightarrow>
                   (case dict_get (results resp) of
                      None \<Rightarrow> None
                    | Some [] \<Rightarrow> None
                    | Some (p # ps) \<Rightarrow>
                        Some \<lparr>nearest_name = dict_get (raw_name p),
                               nearest_rating = dict_get (raw_rating p)\<rparr>)))
     \<and> (\<exists>h. var_metro_nearest L
               = fst (find_nearest_place (lat g) (lng g) ''subway_station'' gmaps h)
          \<and> var_metro_nearest L =
              (case places_nearby gmaps h (distance_request (lat g) (lng g) ''subway_station'') of
                 Inl e \<Rightarrow> None
               | Inr resp \<Rightarrow>
                   (case dict_get (results resp) of
                      None \<Rightarrow> None
                    | Some [] \<Rightarrow> None
                    | Some (p # ps) \<Rightarrow>
                        Some \<lparr>nearest_name = dict_get (raw_name p),
                               nearest_rating = dict_get (raw_rating p)\<rparr>)))"
proof -
  from insights_sections [OF client geo queries run] obtain r where r: "res = Insights r"
    and s: "hospitals (family_life r) =
           \<lparr>count = length (var_hospitals L),
            top_places = take top_n (sorted_reverse safe_sort_key (var_hospitals L)),
            nearest = (case var_hospital_nearest L of None \<Rightarrow> None
                       | Some h \<Rightarrow> nearest_name h)\<rparr>"
      "subway (transport r) =
           \<lparr>subway_count = length (var_metros L),
            subway_nearest = (case var_metro_nearest L of None \<Rightarrow> None
                              | Some m \<Rightarrow> nearest_name m),
            alternatives = take top_n (var_metros L)\<rparr>"
    by blast
  from queries obtain h7 h10 where
    hn': "var_hospital_nearest L
      = fst (find_nearest_place (lat g) (lng g) ''hospital'' gmaps h7)"
    and mn': "var_metro_nearest L
      = fst (find_nearest_place (lat g) (lng g) ''subway_station'' gmaps h10)"
    by (rule category_queries_nearest)
  show ?thesis
    apply (rule exI [of _ r])
    apply (intro conjI)
    subgoal by (rule r)
    subgoal by (simp add: s)
    subgoal by (simp add: s)
    subgoal
      apply (rule exI [of _ h7])
      apply (rule conjI [OF hn'])
      apply (subst hn')
      apply (rule find_nearest_place_first)
      done
    subgoal
      apply (rule exI [of _ h10])
      apply (rule conjI [OF mn'])
      apply (subst mn')
      apply (rule find_nearest_place_first)
      done
    done
qed

theorem nearest_field_is_name_witness:
  "(nearest (hospitals (family_life (report (fst sample_run)))) = Some ''Devlet Hastanesi''
    \<and> subway_nearest (subway (transport (report (fst sample_run)))) = Some ''Metro A'')
   \<and> (\<exists>r. fst sample_run = Insights r
     \<and> nearest (hospitals (family_life r))
         = (case var_hospital_nearest sample_locals of None \<Rightarrow> None
            | Some p \<Rightarrow> nearest_name p)
     \<and> subway_nearest (subway (transport r))
         = (case var_metro_nearest sample_locals of None \<Rightarrow> None | Some p \<Rightarrow> nearest_name p)
     \<and> (\<exists>h. var_hospital_nearest sample_locals
               = fst (find_nearest_place (lat sample_geo) (lng sample_geo) ''hospital''
                        sample_provider h)
          \<and> var_hospital_nearest sample_locals =
              (case places_nearby sample_provider h
                      (distance_request (lat sample_geo) (lng sample_geo) ''hospital'') of
                 Inl e \<Rightarrow> None
               | Inr resp \<Rightarrow>
                   (case dict_get (results resp) of
                      None \<Rightarrow> None
                    | Some [] \<Rightarrow> None
                    | Some (p # ps) \<Rightarrow>
                        Some \<lparr>nearest_name = dict_get (raw_name p),
                               nearest_rating = dict_get (raw_rating p)\<rparr>)))
     \<and> (\<exists>h. var_metro_nearest sample_locals
               = fst (find_nearest_place (lat sample_geo) (lng sample_geo) ''subway_station''
                        sample_provider h)
          \<and> var_metro_nearest sample_locals =
              (case places_nearby sample_provider h
                      (distance_request (lat sample_geo) (lng sample_geo) ''subway_station'') of
                 Inl e \<Rightarrow> None
               | Inr resp \<Rightarrow>
                   (case dict_get (results resp) of
                      None \<Rightarrow> None
                    | Some [] \<Rightarrow> None
                    | Some (p # ps) \<Rightarrow>
                        Some \<lparr>nearest_name = dict_get (raw_name p),
                               nearest_rating = dict_get (raw_rating p)\<rparr>))))"
proof -
  note t = nearest_field_is_name
      [of "\<lambda>k. Inr sample_provider" "''key''", OF sample_client sample_geocode_log
       sample_queries sample_run_eq]
  from sample_nearest t show ?thesis
    by (rule conjI)
qed

section \<open>Absent ratings\<close>

lemma find_places_nearby_payload:
  assumes "find_places_nearby la lo t gmaps rad max_pages h = (ps, h')"
  shows "\<exists>evs. h' = h @ evs
     \<and> (\<forall>p\<in>set ps. \<exists>ev\<in>set evs. \<exists>raw\<in>set (page_results ev). p = normalize raw)"
proof -
  from find_places_nearby_trace [OF assms] obtain out evs where
    h': "h' = h @ NearbyCall (first_request la lo t rad) out # evs"
    and ps: "ps = (if \<exists>ev\<in>set (NearbyCall (first_request la lo t rad) out # evs). failed_call ev
           then []
           else map normalize
                  (concat (map page_results (NearbyCall (first_request la lo t rad) out # evs))))"
    by blast
  let ?evs = "NearbyCall (first_request la lo t rad) out # evs"
  have "\<exists>ev\<in>set ?evs. \<exists>raw\<in>set (page_results ev). p = normalize raw" if "p \<in> set ps" for p
  proof -
    from that ps have "p \<in> normalize ` set (concat (map page_results ?evs))"
      by (auto split: if_splits)
    then show ?thesis
      by auto
  qed
  with h' show ?thesis
    by (intro exI [of _ ?evs]) auto
qed


lemma category_queries_payload:
  assumes "category_queries gmaps g w1 = (L, w11)"
  shows "\<exists>evs. w11 = w1 @ evs
     \<and> (\<forall>p\<in>set (var_cafes L). \<exists>ev\<in>set evs. \<exists>raw\<in>set (page_results ev). p = normalize raw)
     \<and> (\<forall>p\<in>set (var_malls L). \<exists>ev\<in>set evs. \<exists>raw\<in>set (page_results ev). p = normalize raw)
     \<and> (\<forall>p\<in>set (var_parks L). \<exists>ev\<in>set evs. \<exists>raw\<in>set (page_results ev). p = normalize raw)
     \<and> (\<forall>p\<in>set (var_gyms L). \<exists>ev\<in>set evs. \<exists>raw\<in>set (page_results ev). p = normalize raw)
     \<and> (\<forall>p\<in>set (var_schools L). \<exists>ev\<in>set evs. \<exists>raw\<in>set (page_results ev). p = normalize raw)
     \<and> (\<forall>p\<in>set (var_hospitals L). \<exists>ev\<in>set evs. \<exists>raw\<in>set (page_results ev). p = normalize raw)
     \<and> (\<forall>p\<in>set (var_pharmacies L). \<exists>ev\<in>set evs. \<exists>raw\<in>set (page_results ev). p = normalize raw)
     \<and> (\<forall>p\<in>set (var_metros L). \<exists>ev\<in>set evs. \<exists>raw\<in>set (page_results ev). p = normalize raw)"
proof -
  from assms obtain w2 w3 w4 w5 w6 w7 w8 w9 w10 where
    q1: "find_places_nearby (lat g) (lng g) ''cafe'' gmaps (radii_at ''cafe'') 2 w1
       = (var_cafes L, w2)" and
    q2: "find_places_nearby (lat g) (lng g) ''shopping_mall'' gmaps (radii_at ''shopping_mall'') 2 w2
       = (var_malls L, w3)" and
    q3: "find_places_nearby (lat g) (lng g) ''park'' gmaps (radii_at ''park'') 2 w3
       = (var_parks L, w4)" and
    q4: "find_places_nearby (lat g) (lng g) ''gym'' gmaps (radii_at ''gym'') 2 w4
       = (var_gyms L, w5)" and
    q5: "find_places_nearby (lat g) (lng g) ''school'' gmaps (radii_at ''school'') 2 w5
       = (var_schools L, w6)" and
    q6: "find_places_nearby (lat g) (lng g) ''hospital'' gmaps (radii_at ''hospital'') 2 w6
       = (var_hospitals L, w7)" and
    q7: "find_nearest_place (lat g) (lng g) ''hospital'' gmaps w7 = (var_hospital_nearest L, w8)" and
    q8: "find_places_nearby (lat g) (lng g) ''pharmacy'' gmaps (radii_at ''pharmacy'') 2 w8
       = (var_pharmacies L, w9)" and
    q9: "find_places_nearby (lat g) (lng g) ''subway_station'' gmaps (radii_at ''subway_station'') 2 w9
       = (var_metros L, w10)" and
    q10: "find_nearest_place (lat g) (lng g) ''subway_station'' gmaps w10
       = (var_metro_nearest L, w11)"
    by (rule category_queries_stages)
  from find_places_nearby_payload [OF q1] obtain e1 where e1: "w2 = w1 @ e1"
    "\<forall>p\<in>set (var_cafes L). \<exists>ev\<in>set e1. \<exists>raw\<in>set (page_results ev). p = normalize raw"
    by blast
  from find_places_nearby_payload [OF q2] obtain e2 where e2: "w3 = w2 @ e2"
    "\<forall>p\<in>set (var_malls L). \<exists>ev\<in>set e2. \<exists>raw\<in>set (page_results ev). p = normalize raw"
    by blast
  from find_places_nearby_payload [OF q3] obtain e3 where e3: "w4 = w3 @ e3"
    "\<forall>p\<in>set (var_parks L). \<exists>ev\<in>set e3. \<exists>raw\<in>set (page_results ev). p = normalize raw"
    by blast
  from find_places_nearby_payload [OF q4] obtain e4 where e4: "w5 = w4 @ e4"
    "\<forall>p\<in>set (var_gyms L). \<exists>ev\<in>set e4. \<exists>raw\<in>set (page_results ev). p = normalize raw"
    by blast
  from find_places_nearby_payload [OF q5] obtain e5 where e5: "w6 = w5 @ e5"
    "\<forall>p\<in>set (var_schools L). \<exists>ev\<in>set e5. \<exists>raw\<in>set (page_results ev). p = normalize raw"
    by blast
  from find_places_nearby_payload [OF q6] obtain e6 where e6: "w7 = w6 @ e6"
    "\<forall>p\<in>set (var_hospitals L). \<exists>ev\<in>set e6. \<exists>raw\<in>set (page_results ev). p = normalize raw"
    by blast
  from find_places_nearby_payload [OF q8] obtain e8 where e8: "w9 = w8 @ e8"
    "\<forall>p\<in>set (var_pharmacies L). \<exists>ev\<in>set e8. \<exists>raw\<in>set (page_results ev). p = normalize raw"
    by blast
  from find_places_nearby_payload [OF q9] obtain e9 where e9: "w10 = w9 @ e9"
    "\<forall>p\<in>set (var_metros L). \<exists>ev\<in>set e9. \<exists>raw\<in>set (page_results ev). p = normalize raw"
    by blast
  from find_nearest_place_log [OF q7] obtain e7 where e7: "w8 = w7 @ e7"
    by blast
  from find_nearest_place_log [OF q10] obtain e10 where e10: "w11 = w10 @ e10"
    by blast
  let ?evs = "e1 @ e2 @ e3 @ e4 @ e5 @ e6 @ e7 @ e8 @ e9 @ e10"
  have log: "w11 = w1 @ ?evs"
    by (simp add: e1(1) e2(1) e3(1) e4(1) e5(1) e6(1) e7(1) e8(1) e9(1) e10(1))
  have mono: "\<exists>ev\<in>set ?evs. Q ev" if "\<exists>ev\<in>set es. Q ev" "set es \<subseteq> set ?evs"
    for es :: "event list" and Q
    using that by blast
  show ?thesis
    apply (rule exI [of _ ?evs])
    apply (intro conjI ballI)
    subgoal by (rule log)
    subgoal for p by (rule mono [OF e1(2) [rule_format, of p]]) auto
    subgoal for p by (rule mono [OF e2(2) [rule_format, of p]]) auto
    subgoal for p by (rule mono [OF e3(2) [rule_format, of p]]) auto
    subgoal for p by (rule mono [OF e4(2) [rule_format, of p]]) auto
    subgoal for p by (rule mono [OF e5(2) [rule_format, of p]]) auto
    subgoal for p by (rule mono [OF e6(2) [rule_format, of p]]) auto
    subgoal for p by (rule mono [OF e8(2) [rule_format, of p]]) auto
    subgoal for p by (rule mono [OF e9(2) [rule_format, of p]]) auto
    done
qed

lemma normalize_keeps_absent:
  "rating (normalize raw) = dict_get (raw_rating raw)
   \<and> user_ratings_total (normalize raw) = dict_get (raw_user_ratings_total raw)
   \<and> safe_sort_key (normalize raw) =
       (case dict_get (raw_rating raw) of None \<Rightarrow> 0 | Some x \<Rightarrow> x,
        case dict_get (raw_user_ratings_total raw) of None \<Rightarrow> 0 | Some c \<Rightarrow> c)"
  by (simp add: normalize_def safe_sort_key_def split: option.splits)

lemma in_top_ranked: "p \<in> set (take n (sorted_reverse k xs)) \<Longrightarrow> p \<in> set xs"
  by (auto dest: in_set_takeD simp: set_sorted_reverse)

lemma sample_parks_section:
  "map rating (top_places (parks (social_life (report (fst sample_run))))) = [Some (23 / 5), None]
   \<and> map user_ratings_total (top_places (parks (social_life (report (fst sample_run)))))
       = [None, Some 3]
   \<and> map safe_sort_key (top_places (parks (social_life (report (fst sample_run)))))
       = [(23 / 5, 0), (0, 3)]"
  by (simp add: sample_run_def sample_geocode_log get_neighborhood_insights_def Let_def
      sample_searches sample_results_def sample_raw_def radii_at_def radii_def top_n_def
      sorted_reverse_def safe_sort_key_def normalize_def)

text \<open>
  C8. A record whose payload omits the rating (the key is missing or \<^verbatim>\<open>null\<close>) is normalised
  to a record whose rating is absent, and its sort key uses 0 in that place; likewise for the
  rating count. In a successful report every record of every list of places (the \<open>top\<close> lists
  and the subway \<open>alternatives\<close>) is the normalisation of a record of a page the provider
  returned during the run: its rating and count are those of the payload, absent where the
  payload has none, and only its sort key replaces an absent value by 0.
\<close>

theorem absent_rating_stays_absent:
  assumes client: "Client api_key = Inr gmaps"
      and geo: "geocode_address addr gmaps ''tr'' w0 = (Some g, w1)"
      and queries: "category_queries gmaps g w1 = (L, w2)"
      and run: "get_neighborhood_insights addr api_key Client w0 = (res, w)"
  shows "(\<forall>raw. (raw_rating raw = Absent \<or> raw_rating raw = Null \<longrightarrow>
                  rating (normalize raw) = None \<and> fst (safe_sort_key (normalize raw)) = 0)
              \<and> (raw_user_ratings_total raw = Absent \<or> raw_user_ratings_total raw = Null \<longrightarrow>
                  user_ratings_total (normalize raw) = None
                  \<and> snd (safe_sort_key (normalize raw)) = 0))
     \<and> (\<exists>r. res = Insights r
        \<and> (\<forall>p \<in> set (top_places (cafes (social_life r)))
                \<union> set (top_places (shopping_malls (social_life r)))
                \<union> set (top_places (parks (social_life r)))
                \<union> set (top_places (gyms (social_life r)))
                \<union> set (top_places (schools (family_life r)))
                \<union> set (top_places (hospitals (family_life r)))
                \<union> set (top_places (pharmacies (family_life r)))
                \<union> set (alternatives (subway (transport r))).
             \<exists>ev\<in>set (drop (length w0) w). \<exists>raw\<in>set (page_results ev).
                p = normalize raw
                \<and> rating p = dict_get (raw_rating raw)
                \<and> user_ratings_total p = dict_get (raw_user_ratings_total raw)
                \<and> safe_sort_key p =
                    (case dict_get (raw_rating raw) of None \<Rightarrow> 0 | Some x \<Rightarrow> x,
                     case dict_get (raw_user_ratings_total raw) of None \<Rightarrow> 0
                     | Some c \<Rightarrow> c)))"
proof -
  have part1: "\<forall>raw. (raw_rating raw = Absent \<or> raw_rating raw = Null \<longrightarrow>
                  rating (normalize raw) = None \<and> fst (safe_sort_key (normalize raw)) = 0)
              \<and> (raw_user_ratings_total raw = Absent \<or> raw_user_ratings_total raw = Null \<longrightarrow>
                  user_ratings_total (normalize raw) = None
                  \<and> snd (safe_sort_key (normalize raw)) = 0)"
    by (auto simp: normalize_def safe_sort_key_def)
  from insights_sections [OF client geo queries run] obtain r where r: "res = Insights r"
    and w: "w = w2"
    and s: "cafes (social_life r) =
           \<lparr>count = length (var_cafes L),
            top_places = take top_n (sorted_reverse safe_sort_key (var_cafes L))\<rparr>"
      "shopping_malls (social_life r) =
           \<lparr>count = length (filter has_mall_tag (var_malls L)),
            top_places =
              take top_n (sorted_reverse safe_sort_key (filter has_mall_tag (var_malls L)))\<rparr>"
      "parks (social_life r) =
           \<lparr>count = length (var_parks L),
            top_places = take top_n (sorted_reverse safe_sort_key (var_parks L))\<rparr>"
      "gyms (social_life r) =
           \<lparr>count = length (var_gyms L),
            top_places = take top_n (sorted_reverse safe_sort_key (var_gyms L))\<rparr>"
      "schools (family_life r) =
           \<lparr>count = length (var_schools L),
            top_places = take top_n (sorted_reverse safe_sort_key (var_schools L))\<rparr>"
      "hospitals (family_life r) =
           \<lparr>count = length (var_hospitals L),
            top_places = take top_n (sorted_reverse safe_sort_key (var_hospitals L)),
            nearest = (case var_hospital_nearest L of None \<Rightarrow> None
                       | Some h \<Rightarrow> nearest_name h)\<rparr>"
      "pharmacies (family_life r) =
           \<lparr>count = length (var_pharmacies L), top_places = take top_n (var_pharmacies L)\<rparr>"
      "subway (transport r) =
           \<lparr>subway_count = length (var_metros L),
            subway_nearest = (case var_metro_nearest L of None \<Rightarrow> None
                              | Some m \<Rightarrow> nearest_name m),
            alternatives = take top_n (var_metros L)\<rparr>"
    by blast
  from category_queries_payload [OF queries] obtain evs where evs: "w2 = w1 @ evs"
    and pl: "\<forall>p\<in>set (var_cafes L). \<exists>ev\<in>set evs. \<exists>raw\<in>set (page_results ev). p = normalize raw"
      "\<forall>p\<in>set (var_malls L). \<exists>ev\<in>set evs. \<exists>raw\<in>set (page_results ev). p = normalize raw"
      "\<forall>p\<in>set (var_parks L). \<exists>ev\<in>set evs. \<exists>raw\<in>set (page_results ev). p = normalize raw"
      "\<forall>p\<in>set (var_gyms L). \<exists>ev\<in>set evs. \<exists>raw\<in>set (page_results ev). p = normalize raw"
      "\<forall>p\<in>set (var_schools L). \<exists>ev\<in>set evs. \<exists>raw\<in>set (page_results ev). p = normalize raw"
      "\<forall>p\<in>set (var_hospitals L). \<exists>ev\<in>set evs. \<exists>raw\<in>set (page_results ev). p = normalize raw"
      "\<forall>p\<in>set (var_pharmacies L). \<exists>ev\<in>set evs. \<exists>raw\<in>set (page_results ev). p = normalize raw"
      "\<forall>p\<in>set (var_metros L). \<exists>ev\<in>set evs. \<exists>raw\<in>set (page_results ev). p = normalize raw"
    by blast
  from geo have w1: "w1 = w0 @ [GeocodeCall addr ''tr'' (geocode gmaps w0 addr ''tr'')]"
    using geocode_address_log [of addr gmaps "''tr''" w0] by simp
  have sub: "set evs \<subseteq> set (drop (length w0) w)"
    by (simp add: w evs w1 subset_insertI)
  let ?lists = "set (var_cafes L) \<union> set (var_malls L) \<union> set (var_parks L) \<union> set (var_gyms L)
      \<union> set (var_schools L) \<union> set (var_hospitals L) \<union> set (var_pharmacies L)
      \<union> set (var_metros L)"
  have found: "p \<in> ?lists"
    if "p \<in> set (top_places (cafes (social_life r)))
                \<union> set (top_places (shopping_malls (social_life r)))
                \<union> set (top_places (parks (social_life r)))
                \<union> set (top_places (gyms (social_life r)))
                \<union> set (top_places (schools (family_life r)))
                \<union> set (top_places (hospitals (family_life r)))
                \<union> set (top_places (pharmacies (family_life r)))
                \<union> set (alternatives (subway (transport r)))" for p
    using that by (auto simp: s dest: in_top_ranked in_set_takeD)
  have payload: "\<exists>ev\<in>set evs. \<exists>raw\<in>set (page_results ev). p = normalize raw"
    if "p \<in> ?lists" for p
    using that pl by blast
  have final: "\<exists>ev\<in>set (drop (length w0) w). \<exists>raw\<in>set (page_results ev).
                p = normalize raw
                \<and> rating p = dict_get (raw_rating raw)
                \<and> user_ratings_total p = dict_get (raw_user_ratings_total raw)
                \<and> safe_sort_key p =
                    (case dict_get (raw_rating raw) of None \<Rightarrow> 0 | Some x \<Rightarrow> x,
                     case dict_get (raw_user_ratings_total raw) of None \<Rightarrow> 0
                     | Some c \<Rightarrow> c)"
    if "p \<in> ?lists" for p
  proof -
    from payload [OF that] obtain ev raw where
      ev: "ev \<in> set evs" and raw: "raw \<in> set (page_results ev)" and p: "p = normalize raw"
      by blast
    from ev sub have "ev \<in> set (drop (length w0) w)" by blast
    with raw p normalize_keeps_absent [of raw] show ?thesis
      by blast
  qed
  show ?thesis
    apply (rule conjI [OF part1])
    apply (rule exI [of _ r])
    apply (rule conjI [OF r])
    apply (rule ballI)
    apply (rule final)
    apply (erule found)
    done
qed

theorem absent_rating_stays_absent_witness:
  "(map rating (top_places (parks (social_life (report (fst sample_run)))))
      = [Some (23 / 5), None]
    \<and> map user_ratings_total (top_places (parks (social_life (report (fst sample_run)))))
       = [None, Some 3]
    \<and> map safe_sort_key (top_places (parks (social_life (report (fst sample_run)))))
       = [(23 / 5, 0), (0, 3)])
   \<and> (\<exists>r. fst sample_run = Insights r
        \<and> (\<forall>p \<in> set (top_places (cafes (social_life r)))
                \<union> set (top_places (shopping_malls (social_life r)))
                \<union> set (top_places (parks (social_life r)))
                \<union> set (top_places (gyms (social_life r)))
                \<union> set (top_places (schools (family_life r)))
                \<union> set (top_places (hospitals (family_life r)))
                \<union> set (top_places (pharmacies (family_life r)))
                \<union> set (alternatives (subway (transport r))).
             \<exists>ev\<in>set (drop (length ([] :: event list)) (snd sample_run)). \<exists>raw\<in>set (page_results ev).
                p = normalize raw
                \<and> rating p = dict_get (raw_rating raw)
                \<and> user_ratings_total p = dict_get (raw_user_ratings_total raw)
                \<and> safe_sort_key p =
                    (case dict_get (raw_rating raw) of None \<Rightarrow> 0 | Some x \<Rightarrow> x,
                     case dict_get (raw_user_ratings_total raw) of None \<Rightarrow> 0
                     | Some c \<Rightarrow> c)))"
proof -
  note t = absent_rating_stays_absent
      [of "\<lambda>k. Inr sample_provider" "''key''", OF sample_client sample_geocode_log
       sample_queries sample_run_eq]
  from sample_parks_section t [THEN conjunct2] show ?thesis
    by (rule conjI)
qed

end
